theory Spec2Isabelle
  imports
    Complex_Main
    "HOL-Library.Word"
    "HOL-Library.AList"
    "HOL-Library.DAList"
    "HOL-Library.Char_ord"
    "HOL-Library.List_Lexorder"
    "HOL-Library.Product_Lexorder"
    "HOL-Library.Multiset"
begin

section \<open>The VRAM resource manager (server/resource_manager.py)\<close>

text \<open>
  A shallow embedding of the class \<^verbatim>\<open>ResourceManager\<close>. The Python object, the
  directory it writes to and the clock it reads are one explicit state; every method
  takes the state and returns its result together with the new state. Exceptions that
  the methods catch are branches of the model.

  Conventions.
  \<^item> Identifiers, categories, timestamps and paths are Python \<^verbatim>\<open>str\<close> values that the
    code only compares, orders and concatenates; they are modelled by \<^typ>\<open>string\<close>
    (their UTF-8 bytes, whose lexicographic order is the order of the code points).
  \<^item> Payload text is encoded by the code, so it is kept as a list of code points.
  \<^item> A \<^verbatim>\<open>datetime\<close> is an integer number of microseconds on the time line; the
    difference of two of them is a \<^verbatim>\<open>timedelta\<close>, whose \<^verbatim>\<open>days\<close> attribute is the
    floor of the difference divided by one day.
  \<^item> A Python \<^verbatim>\<open>dict\<close> keeps its keys distinct and in insertion order; the ledger
    is an association list with distinct keys.
  \<^item> Calls to \<^verbatim>\<open>logging\<close> have no effect on the results and are left out.
\<close>

subsection \<open>Bytes and text\<close>

type_synonym bytes = "8 word list"

text \<open>\<^verbatim>\<open>str.encode('utf-8')\<close>: one to four bytes per code point; a surrogate
  (U+D800 to U+DFFF) raises \<^verbatim>\<open>UnicodeEncodeError\<close>.\<close>

definition utf8_code_point :: "nat \<Rightarrow> bytes option" where
  "utf8_code_point c =
     (if c < 0x80 then Some [of_nat c]
      else if c < 0x800 then Some [of_nat (0xC0 + c div 64), of_nat (0x80 + c mod 64)]
      else if 0xD800 \<le> c \<and> c < 0xE000 then None
      else if c < 0x10000 then
        Some [of_nat (0xE0 + c div 4096), of_nat (0x80 + (c div 64) mod 64),
              of_nat (0x80 + c mod 64)]
      else if c < 0x110000 then
        Some [of_nat (0xF0 + c div 262144), of_nat (0x80 + (c div 4096) mod 64),
              of_nat (0x80 + (c div 64) mod 64), of_nat (0x80 + c mod 64)]
      else None)"

fun encode_utf8 :: "nat list \<Rightarrow> bytes option" where
  "encode_utf8 [] = Some []"
| "encode_utf8 (c # cs) =
     (case utf8_code_point c of
        None \<Rightarrow> None
      | Some b \<Rightarrow> map_option ((@) b) (encode_utf8 cs))"

text \<open>The \<^verbatim>\<open>content\<close> argument of \<^verbatim>\<open>store_resource\<close>: a \<^verbatim>\<open>str\<close>, a \<^verbatim>\<open>bytes\<close>, or
  any other object, which is given by what \<^verbatim>\<open>pickle.dumps\<close> makes of it (\<open>None\<close> when
  pickling raises).\<close>

datatype content = Text "nat list" | Bytes bytes | Object "bytes option"

definition to_bytes :: "content \<Rightarrow> bytes option" where
  "to_bytes c = (case c of Text cs \<Rightarrow> encode_utf8 cs | Bytes b \<Rightarrow> Some b | Object p \<Rightarrow> p)"

subsection \<open>The ledger\<close>

text \<open>One entry of \<^verbatim>\<open>metadata['resources']\<close>. The code reads most keys with
  \<^verbatim>\<open>.get(key, default)\<close>, so a key may be missing: \<open>None\<close>.\<close>

record resource_meta =
  size_bytes :: "int option"
  hash :: "string option"
  category :: "string option"
  priority :: "int option"
  created :: "string option"
  last_accessed :: "string option"
  access_count :: "int option"
  version :: "int option"

type_synonym ledger = "(string, resource_meta) alist"

subsection \<open>The environment\<close>

text \<open>What the outside world answers. Library functions are parameters:
  \<^verbatim>\<open>hashlib.sha256(data).hexdigest()\<close>, \<^verbatim>\<open>datetime.isoformat\<close> and
  \<^verbatim>\<open>datetime.fromisoformat\<close> (\<open>None\<close> when it raises). So is the file system's
  resolution of a path: \<open>realpath\<close> gives the canonical name of the file that a path
  names, so that two paths name one file exactly when it maps them to the same value
  (as \<^verbatim>\<open>./y.dat\<close> and \<^verbatim>\<open>y.dat\<close> do in any directory, and more with symbolic
  links; hard links between payload files are not considered); the code creates and
  removes payload files only, which changes no resolution. \<open>cwd\<close> is
  \<^verbatim>\<open>os.getcwd()\<close>. The state counts the interactions with the world (\<open>tick\<close>); the
  clock and the outcome of every file operation are functions of that count.\<close>

datatype write_result = Written | OpenFailed | WriteFailed bytes
datatype save_result = Saved | SaveOpenFailed | DumpFailed

record env =
  sha256_hexdigest :: "bytes \<Rightarrow> string"
  isoformat :: "int \<Rightarrow> string"
  fromisoformat :: "string \<Rightarrow> int option"
  clock :: "nat \<Rightarrow> int"
  write_outcome :: "nat \<Rightarrow> write_result"
  read_raises :: "nat \<Rightarrow> bool"
  remove_raises :: "nat \<Rightarrow> bool"
  save_outcome :: "nat \<Rightarrow> save_result"
  cwd :: string
  realpath :: "string \<Rightarrow> string"

subsection \<open>The state\<close>

text \<open>\<open>resources\<close> and \<open>last_updated\<close> are \<^verbatim>\<open>self.metadata\<close> (its keys
  \<^verbatim>\<open>version\<close> and \<^verbatim>\<open>created\<close> never change and are not modelled); \<open>files\<close> maps
  every payload file that exists, as \<open>realpath\<close> names it, to its contents
  (\<^verbatim>\<open>os.path.exists\<close> is true of a path when the file it names is there; of a
  directory there, the read and the removal raise). \<^verbatim>\<open>metadata.json\<close> is kept apart
  from them: \<open>metadata_file\<close> is the document last written to it (\<open>None\<close>: absent
  or unreadable).\<close>

record state =
  resource_dir :: string
  resources :: ledger
  last_updated :: string
  files :: "string \<rightharpoonup> bytes"
  metadata_file :: "(ledger \<times> string) option"
  tick :: nat

definition now :: "env \<Rightarrow> state \<Rightarrow> int \<times> state" where
  "now E s = (clock E (tick s), s\<lparr>tick := Suc (tick s)\<rparr>)"

subsection \<open>Paths\<close>

text \<open>\<^verbatim>\<open>os.path.join(a, b)\<close> of \<^verbatim>\<open>posixpath\<close> for two components: an absolute
  \<open>b\<close> replaces \<open>a\<close>.\<close>

definition path_join :: "string \<Rightarrow> string \<Rightarrow> string" where
  "path_join a b =
     (if (case b of [] \<Rightarrow> False | c # _ \<Rightarrow> c = CHR ''/'') then b
      else if a = [] \<or> last a = CHR ''/'' then a @ b
      else a @ ''/'' @ b)"

definition get_file_path :: "state \<Rightarrow> string \<Rightarrow> string" where
  "get_file_path s resource_id = path_join (resource_dir s) (resource_id @ ''.dat'')"

text \<open>\<^verbatim>\<open>str.split('/')\<close> and \<^verbatim>\<open>'/'.join\<close>.\<close>

fun split_slash :: "string \<Rightarrow> string list" where
  "split_slash [] = [[]]"
| "split_slash (c # cs) =
     (if c = CHR ''/'' then [] # split_slash cs
      else (case split_slash cs of [] \<Rightarrow> [[c]] | w # ws \<Rightarrow> (c # w) # ws))"

fun join_slash :: "string list \<Rightarrow> string" where
  "join_slash [] = []"
| "join_slash [w] = w"
| "join_slash (w # ws) = w @ ''/'' @ join_slash ws"

text \<open>\<^verbatim>\<open>os.path.normpath\<close> of \<^verbatim>\<open>posixpath\<close>: empty and \<open>.\<close> components are
  dropped, \<open>..\<close> takes the component before it away (at the root it is dropped), and
  exactly two leading slashes are kept. \<open>norm_step\<close> is the body of its loop over the
  components.\<close>

definition norm_step :: "bool \<Rightarrow> string list \<Rightarrow> string \<Rightarrow> string list" where
  "norm_step initial_slashes new_comps part =
     (if part = [] \<or> part = ''.'' then new_comps
      else if part \<noteq> ''..'' \<or> (\<not> initial_slashes \<and> new_comps = []) \<or>
              (new_comps \<noteq> [] \<and> last new_comps = ''..'')
        then new_comps @ [part]
      else if new_comps \<noteq> [] then butlast new_comps
      else new_comps)"

definition normpath :: "string \<Rightarrow> string" where
  "normpath path =
     (if path = [] then ''.''
      else
        (let initial_slashes =
               (if take 1 path = ''/''
                then (if take 2 path = ''//'' \<and> take 3 path \<noteq> ''///'' then 2 else 1)
                else (0::nat));
             comps = fold (\<lambda>part new_comps. norm_step (initial_slashes \<noteq> 0) new_comps part)
                       (split_slash path) [];
             joined = replicate initial_slashes CHR ''/'' @ join_slash comps
         in if joined = [] then ''.'' else joined))"

text \<open>\<^verbatim>\<open>os.path.abspath\<close>: a relative path is joined to the working directory, and
  the result is normalised.\<close>

definition abspath :: "env \<Rightarrow> string \<Rightarrow> string" where
  "abspath E path =
     normpath (if take 1 path = ''/'' then path else path_join (cwd E) path)"

text \<open>\<^verbatim>\<open>__init__\<close> on a directory without \<^verbatim>\<open>metadata.json\<close>: the directory is
  kept as an absolute path, and \<^verbatim>\<open>_load_metadata\<close> returns the empty ledger and reads
  the clock twice.\<close>

definition init_empty :: "env \<Rightarrow> string \<Rightarrow> state" where
  "init_empty E dir =
     \<lparr>resource_dir = abspath E dir, resources = DAList.empty,
      last_updated = isoformat E (clock E 1), files = Map.empty,
      metadata_file = None, tick = 2\<rparr>"

subsection \<open>Saving the ledger\<close>

text \<open>\<^verbatim>\<open>_save_metadata\<close> catches every exception of its body: a failure to open the
  file leaves it as it was, a failure while dumping leaves it unreadable, and neither
  is reported to the caller.\<close>

definition save_metadata :: "env \<Rightarrow> state \<Rightarrow> state" where
  "save_metadata E s =
     (let (t, s1) = now E s;
          s2 = s1\<lparr>last_updated := isoformat E t\<rparr>;
          r = save_outcome E (tick s2);
          s3 = s2\<lparr>tick := Suc (tick s2)\<rparr>
      in case r of
           Saved \<Rightarrow> s3\<lparr>metadata_file := Some (resources s3, last_updated s3)\<rparr>
         | SaveOpenFailed \<Rightarrow> s3
         | DumpFailed \<Rightarrow> s3\<lparr>metadata_file := None\<rparr>)"

subsection \<open>store, get, delete\<close>

text \<open>In the three methods \<open>file_path\<close> is the file that the string
  \<^verbatim>\<open>self._get_file_path(resource_id)\<close> names: every use of the string is an access
  to that file (\<^verbatim>\<open>open\<close>, \<^verbatim>\<open>os.path.exists\<close>, \<^verbatim>\<open>os.remove\<close>).\<close>

definition payload_file :: "env \<Rightarrow> state \<Rightarrow> string \<Rightarrow> string" where
  "payload_file E s resource_id = realpath E (get_file_path s resource_id)"

definition store_resource ::
  "env \<Rightarrow> state \<Rightarrow> string \<Rightarrow> content \<Rightarrow> string \<Rightarrow> int \<Rightarrow> bool \<times> state" where
  "store_resource E s resource_id content category' priority' =
     (case to_bytes content of
        None \<Rightarrow> (False, s)
      | Some data \<Rightarrow>
          (let file_path = payload_file E s resource_id;
               w = write_outcome E (tick s);
               s1 = s\<lparr>tick := Suc (tick s)\<rparr>
           in case w of
                OpenFailed \<Rightarrow> (False, s1)
              | WriteFailed partial \<Rightarrow> (False, s1\<lparr>files := (files s1)(file_path \<mapsto> partial)\<rparr>)
              | Written \<Rightarrow>
                  (let s2 = s1\<lparr>files := (files s1)(file_path \<mapsto> data)\<rparr>;
                       (t_created, s3) = now E s2;
                       (t_accessed, s4) = now E s3;
                       meta = \<lparr>size_bytes = Some (int (length data)),
                               hash = Some (sha256_hexdigest E data),
                               category = Some category',
                               priority = Some priority',
                               created = Some (isoformat E t_created),
                               last_accessed = Some (isoformat E t_accessed),
                               access_count = Some 0,
                               version = Some 1\<rparr>;
                       s5 = s4\<lparr>resources := DAList.update resource_id meta (resources s4)\<rparr>
                   in (True, save_metadata E s5))))"

definition get_resource :: "env \<Rightarrow> state \<Rightarrow> string \<Rightarrow> bytes option \<times> state" where
  "get_resource E s resource_id =
     (case DAList.lookup (resources s) resource_id of
        None \<Rightarrow> (None, s)
      | Some meta \<Rightarrow>
          (let file_path = payload_file E s resource_id
           in case files s file_path of
                None \<Rightarrow>
                  (None, save_metadata E
                           (s\<lparr>resources := DAList.delete resource_id (resources s)\<rparr>))
              | Some data \<Rightarrow>
                  (let failed = read_raises E (tick s);
                       s1 = s\<lparr>tick := Suc (tick s)\<rparr>
                   in if failed then (None, s1)
                      else
                        (let (t, s2) = now E s1;
                             meta1 = meta\<lparr>last_accessed := Some (isoformat E t)\<rparr>;
                             s3 = s2\<lparr>resources :=
                                       DAList.update resource_id meta1 (resources s2)\<rparr>
                         in case access_count meta1 of
                              None \<Rightarrow> (None, s3)
                            | Some n \<Rightarrow>
                                (let meta2 = meta1\<lparr>access_count := Some (n + 1)\<rparr>;
                                     s4 = s3\<lparr>resources :=
                                               DAList.update resource_id meta2 (resources s3)\<rparr>
                                 in (Some data, save_metadata E s4))))))"

definition delete_resource :: "env \<Rightarrow> state \<Rightarrow> string \<Rightarrow> bool \<times> state" where
  "delete_resource E s resource_id =
     (case DAList.lookup (resources s) resource_id of
        None \<Rightarrow> (False, s)
      | Some meta \<Rightarrow>
          (let file_path = payload_file E s resource_id
           in case files s file_path of
                None \<Rightarrow>
                  (True, save_metadata E
                           (s\<lparr>resources := DAList.delete resource_id (resources s)\<rparr>))
              | Some data \<Rightarrow>
                  (let failed = remove_raises E (tick s);
                       s1 = s\<lparr>tick := Suc (tick s)\<rparr>
                   in if failed then (False, s1)
                      else
                        (True, save_metadata E
                                 (s1\<lparr>files := (files s1)(file_path := None),
                                     resources := DAList.delete resource_id (resources s1)\<rparr>)))))"

subsection \<open>list\<close>

text \<open>One element of the result of \<^verbatim>\<open>list_resources\<close>, with the defaults of
  \<^verbatim>\<open>.get\<close> applied.\<close>

record resource_info =
  info_resource_id :: string
  info_size :: int
  info_category :: string
  info_priority :: int
  info_created :: "string option"
  info_last_accessed :: "string option"
  info_access_count :: int
  info_version :: int

definition make_info :: "string \<times> resource_meta \<Rightarrow> resource_info" where
  "make_info e =
     (case e of (resource_id, metadata) \<Rightarrow>
        \<lparr>info_resource_id = resource_id,
         info_size = (case size_bytes metadata of None \<Rightarrow> 0 | Some n \<Rightarrow> n),
         info_category = (case category metadata of None \<Rightarrow> ''unknown'' | Some c \<Rightarrow> c),
         info_priority = (case priority metadata of None \<Rightarrow> 3 | Some p \<Rightarrow> p),
         info_created = created metadata,
         info_last_accessed = last_accessed metadata,
         info_access_count = (case access_count metadata of None \<Rightarrow> 0 | Some n \<Rightarrow> n),
         info_version = (case version metadata of None \<Rightarrow> 1 | Some v \<Rightarrow> v)\<rparr>)"

text \<open>The two \<^verbatim>\<open>continue\<close> tests of the loop. \<^verbatim>\<open>if category and ...\<close> and
  \<^verbatim>\<open>if max_size and ...\<close> test the truth value of the argument: \<^verbatim>\<open>None\<close>, the empty
  string and 0 are false.\<close>

definition skipped_by_category :: "string option \<Rightarrow> resource_meta \<Rightarrow> bool" where
  "skipped_by_category cat metadata =
     (case cat of None \<Rightarrow> False | Some c \<Rightarrow> c \<noteq> [] \<and> category metadata \<noteq> Some c)"

definition skipped_by_size :: "int option \<Rightarrow> resource_meta \<Rightarrow> bool" where
  "skipped_by_size max_size metadata =
     (case max_size of
        None \<Rightarrow> False
      | Some k \<Rightarrow> k \<noteq> 0 \<and> (case size_bytes metadata of None \<Rightarrow> 0 | Some n \<Rightarrow> n) > k)"

text \<open>The sort key \<^verbatim>\<open>x['last_accessed'] or '1970-01-01'\<close>.\<close>

definition recency_key :: "resource_info \<Rightarrow> string" where
  "recency_key x =
     (case info_last_accessed x of
        None \<Rightarrow> ''1970-01-01''
      | Some t \<Rightarrow> if t = [] then ''1970-01-01'' else t)"

text \<open>\<^verbatim>\<open>list.sort(key=f, reverse=True)\<close> is stable: the list is reversed, sorted
  ascending (stably) and reversed again.\<close>

definition sort_reverse :: "('a \<Rightarrow> 'k::linorder) \<Rightarrow> 'a list \<Rightarrow> 'a list" where
  "sort_reverse f xs = rev (sort_key f (rev xs))"

text \<open>\<^verbatim>\<open>xs[start:stop]\<close>: a negative index counts from the end, and both indices
  are clipped to the list.\<close>

definition slice_index :: "int \<Rightarrow> nat \<Rightarrow> nat" where
  "slice_index i n = (if i < 0 then nat (max (i + int n) 0) else min (nat i) n)"

definition py_slice :: "'a list \<Rightarrow> int \<Rightarrow> int \<Rightarrow> 'a list" where
  "py_slice xs start stop =
     (let a = slice_index start (length xs);
          b = slice_index stop (length xs)
      in take (b - a) (drop a xs))"

definition list_resources ::
  "state \<Rightarrow> string option \<Rightarrow> int option \<Rightarrow> int \<Rightarrow> int \<Rightarrow> resource_info list" where
  "list_resources s category' max_size page per_page =
     (let found = map make_info
                    (filter (\<lambda>e. \<not> skipped_by_category category' (snd e) \<and>
                                 \<not> skipped_by_size max_size (snd e))
                       (DAList.impl_of (resources s)));
          ordered = sort_reverse recency_key found;
          start_idx = (page - 1) * per_page;
          end_idx = start_idx + per_page
      in py_slice ordered start_idx end_idx)"

subsection \<open>stats\<close>

text \<open>\<^verbatim>\<open>get_usage_stats\<close> without the two derived figures that are not integers
  (\<^verbatim>\<open>total_size_mb\<close>, a rounded float, and \<^verbatim>\<open>disk_usage\<close>, a query to the host).\<close>

record usage_stats =
  total_resources :: nat
  total_size_bytes :: int
  categories :: "(string \<times> nat \<times> int) list"
  most_accessed :: "(string \<times> int) list"

definition count_category ::
  "(string \<times> nat \<times> int) list \<Rightarrow> resource_meta \<Rightarrow> (string \<times> nat \<times> int) list" where
  "count_category cats meta =
     (let cat = (case category meta of None \<Rightarrow> ''unknown'' | Some c \<Rightarrow> c);
          sz = (case size_bytes meta of None \<Rightarrow> 0 | Some n \<Rightarrow> n);
          (cnt, total) = (case map_of cats cat of None \<Rightarrow> (0, 0) | Some p \<Rightarrow> p)
      in AList.update cat (cnt + 1, total + sz) cats)"

definition get_usage_stats :: "state \<Rightarrow> usage_stats" where
  "get_usage_stats s =
     (let entries = DAList.impl_of (resources s)
      in \<lparr>total_resources = length entries,
          total_size_bytes =
            sum_list (map (\<lambda>e. case size_bytes (snd e) of None \<Rightarrow> 0 | Some n \<Rightarrow> n) entries),
          categories = fold (\<lambda>e cats. count_category cats (snd e)) entries [],
          most_accessed =
            take 10 (sort_reverse snd
              (map (\<lambda>e. (fst e, case access_count (snd e) of None \<Rightarrow> 0 | Some n \<Rightarrow> n))
                 entries))\<rparr>)"

subsection \<open>optimize\<close>

text \<open>A candidate is the tuple \<^verbatim>\<open>(resource_id, score, size, priority)\<close>.\<close>

type_synonym candidate = "string \<times> int \<times> int \<times> int"

definition microseconds_per_day :: int where
  "microseconds_per_day = 86400000000"

text \<open>The scoring loop. \<^verbatim>\<open>datetime.fromisoformat\<close> may raise, which ends
  \<^verbatim>\<open>optimize_storage\<close> in its \<^verbatim>\<open>except\<close> clause: the result is \<open>None\<close>. The clock is
  read once for every record.\<close>

fun evaluate_resources ::
  "env \<Rightarrow> state \<Rightarrow> (string \<times> resource_meta) list \<Rightarrow> candidate list option \<times> state" where
  "evaluate_resources E s [] = (Some [], s)"
| "evaluate_resources E s ((resource_id, meta) # rest) =
     (let priority' = (case priority meta of None \<Rightarrow> 3 | Some p \<Rightarrow> p)
      in case fromisoformat E
                (case last_accessed meta of None \<Rightarrow> ''1970-01-01T00:00:00'' | Some t \<Rightarrow> t) of
           None \<Rightarrow> (None, s)
         | Some accessed \<Rightarrow>
             (let access_count' = (case access_count meta of None \<Rightarrow> 0 | Some n \<Rightarrow> n);
                  size' = (case size_bytes meta of None \<Rightarrow> 0 | Some n \<Rightarrow> n);
                  (t, s1) = now E s;
                  age_days = (t - accessed) div microseconds_per_day;
                  score = (access_count' * 10) + (5 - priority') * 100 - age_days;
                  (r, s2) = evaluate_resources E s1 rest
              in (map_option ((#) (resource_id, score, size', priority')) r, s2)))"

text \<open>The key of the sort: \<^verbatim>\<open>lambda x: (x[3], x[1])\<close>, compared as Python compares
  tuples.\<close>

definition eviction_key :: "candidate \<Rightarrow> int \<times> int" where
  "eviction_key x = (case x of (resource_id, score, size', priority') \<Rightarrow> (priority', score))"

text \<open>The test \<^verbatim>\<open>a / b < 1.5\<close> on two Python integers. \<^verbatim>\<open>a / b\<close> raises
  \<^verbatim>\<open>ZeroDivisionError\<close> for \<open>b = 0\<close>; otherwise it is the double nearest to the
  quotient (ties to the even one), and \<^verbatim>\<open>OverflowError\<close> when that is beyond the
  doubles, which is from \<open>2 ^ 1024 - 2 ^ 970\<close> on in absolute value. The doubles
  next to 1.5 are \<open>1.5 - 2 ^ -52\<close> and 1.5 itself, and a quotient halfway between
  them goes to 1.5, the even one: so the double is below 1.5 exactly when the
  quotient is below \<open>1.5 - 2 ^ -53\<close>. \<open>None\<close> stands for the two exceptions.\<close>

definition quotient_below_1_5 :: "int \<Rightarrow> int \<Rightarrow> bool option" where
  "quotient_below_1_5 a b =
     (if b = 0 then None
      else if 2 ^ 1024 - 2 ^ 970 \<le> \<bar>real_of_int a / real_of_int b\<bar> then None
      else Some (real_of_int a / real_of_int b < 3 / 2 - 1 / 2 ^ 53))"

text \<open>The eviction loop, with the accumulators \<^verbatim>\<open>deleted_resources\<close> and
  \<^verbatim>\<open>freed_space\<close>. An exception of the quotient ends \<^verbatim>\<open>optimize_storage\<close> in its
  \<^verbatim>\<open>except\<close> clause: the result is \<open>None\<close>. The quotient is computed for a
  priority-1 candidate only (\<^verbatim>\<open>and\<close> evaluates its right side when the left is
  true).\<close>

fun evict_loop ::
  "env \<Rightarrow> int \<Rightarrow> int \<Rightarrow> candidate list \<Rightarrow> state \<Rightarrow> candidate list \<Rightarrow> int \<Rightarrow>
     (candidate list \<times> int) option \<times> state" where
  "evict_loop E max_size current_size [] s deleted freed_space = (Some (deleted, freed_space), s)"
| "evict_loop E max_size current_size ((resource_id, score, size', priority') # rest)
      s deleted freed_space =
     (if current_size - freed_space \<le> max_size then (Some (deleted, freed_space), s)
      else
        (case (if priority' = 1
               then quotient_below_1_5 (current_size - freed_space) max_size
               else Some False) of
           None \<Rightarrow> (None, s)
         | Some True \<Rightarrow> evict_loop E max_size current_size rest s deleted freed_space
         | Some False \<Rightarrow>
             (case delete_resource E s resource_id of
                (True, s') \<Rightarrow>
                  evict_loop E max_size current_size rest s'
                    (deleted @ [(resource_id, score, size', priority')]) (freed_space + size')
              | (False, s') \<Rightarrow>
                  evict_loop E max_size current_size rest s' deleted freed_space)))"

datatype report =
    NoOptimizationNeeded int int
  | OptimizationCompleted "candidate list" int int
  | OptimizationFailed

definition total_size :: "state \<Rightarrow> int" where
  "total_size s =
     sum_list (map (\<lambda>e. case size_bytes (snd e) of None \<Rightarrow> 0 | Some n \<Rightarrow> n)
                 (DAList.impl_of (resources s)))"

text \<open>\<^verbatim>\<open>if max_size is None: max_size = 100 * 1024 * 1024\<close>.\<close>

definition effective_max_size :: "int option \<Rightarrow> int" where
  "effective_max_size max_size' =
     (case max_size' of None \<Rightarrow> 100 * 1024 * 1024 | Some m \<Rightarrow> m)"

definition optimize_storage :: "env \<Rightarrow> state \<Rightarrow> int option \<Rightarrow> report \<times> state" where
  "optimize_storage E s max_size' =
     (let current_size = total_size s;
          max_size = effective_max_size max_size'
      in if current_size \<le> max_size then (NoOptimizationNeeded current_size max_size, s)
         else
           (case evaluate_resources E s (DAList.impl_of (resources s)) of
              (None, s1) \<Rightarrow> (OptimizationFailed, s1)
            | (Some resources_to_evaluate, s1) \<Rightarrow>
                (case evict_loop E max_size current_size
                        (sort_key eviction_key resources_to_evaluate) s1 [] 0 of
                   (None, s2) \<Rightarrow> (OptimizationFailed, s2)
                 | (Some (deleted_resources, freed_space), s2) \<Rightarrow>
                     (OptimizationCompleted deleted_resources freed_space
                        (current_size - freed_space), s2))))"

section \<open>Concrete environments and states\<close>

text \<open>A small world on which the theorems below are run: the digest and the two
  timestamp conversions are stand-ins for the library functions (every theorem holds
  for all of them), the clock stands still, no file operation fails, and the file
  system has no symbolic links, so that a path names the file of its normal form.\<close>

definition stub_times :: "(string \<times> int) list" where
  "stub_times =
     [(''1970-01-01T00:00:00'', 0),
      (''2024-01-01T00:00:00'', 1704067200000000),
      (''2024-01-11T12:00:00'', 1704974400000000)]"

definition stub_env :: env where
  "stub_env =
     \<lparr>sha256_hexdigest = (\<lambda>d. replicate (length d) CHR ''a''),
      isoformat = (\<lambda>t. case map_of (map prod.swap stub_times) t of
                           None \<Rightarrow> ''2024-01-01T00:00:00'' | Some x \<Rightarrow> x),
      fromisoformat = map_of stub_times,
      clock = (\<lambda>n. 1704974400000000),
      write_outcome = (\<lambda>n. Written),
      read_raises = (\<lambda>n. False),
      remove_raises = (\<lambda>n. False),
      save_outcome = (\<lambda>n. Saved),
      cwd = ''/srv'',
      realpath = normpath\<rparr>"

text \<open>The same world with a disk that cannot be written to, and with one on which
  the ledger cannot be saved.\<close>

definition readonly_env :: env where
  "readonly_env = stub_env\<lparr>write_outcome := (\<lambda>n. OpenFailed)\<rparr>"

definition unsaved_env :: env where
  "unsaved_env = stub_env\<lparr>save_outcome := (\<lambda>n. DumpFailed)\<rparr>"

definition fresh :: state where
  "fresh = init_empty stub_env ''/srv/vram''"

text \<open>The state after storing the text \<open>h\<close>, \<open>e-acute\<close>, \<open>euro sign\<close> under
  \<open>cfg\<close>.\<close>

definition stored_text :: state where
  "stored_text =
     snd (store_resource stub_env fresh ''cfg'' (Text [0x68, 0xE9, 0x20AC]) ''general'' 1)"

text \<open>The same resource read three times, and then stored again.\<close>

definition read_thrice :: state where
  "read_thrice =
     snd (get_resource stub_env (snd (get_resource stub_env
       (snd (get_resource stub_env stored_text ''cfg'')) ''cfg'')) ''cfg'')"

definition overwritten :: state where
  "overwritten = snd (store_resource stub_env read_thrice ''cfg'' (Bytes [1, 2]) ''general'' 1)"

text \<open>The stored resource with its payload file removed by hand, and a world in which
  no file can be removed.\<close>

definition orphaned :: state where
  "orphaned = stored_text\<lparr>files := Map.empty\<rparr>"

definition locked_env :: env where
  "locked_env = stub_env\<lparr>remove_raises := (\<lambda>n. True)\<rparr>"

section \<open>The listing as the specification words it\<close>

text \<open>A record matches when its category is the given one (if one is given) and its
  size is at most the given limit (if one is given).\<close>

definition spec_matches :: "string option \<Rightarrow> int option \<Rightarrow> resource_meta \<Rightarrow> bool" where
  "spec_matches cat max_size m =
     ((case cat of None \<Rightarrow> True | Some c \<Rightarrow> category m = Some c) \<and>
      (case max_size of
         None \<Rightarrow> True
       | Some k \<Rightarrow> (case size_bytes m of None \<Rightarrow> 0 | Some n \<Rightarrow> n) \<le> k))"

text \<open>A ledger of four records with their payload files: \<open>a\<close> (config, 10 bytes,
  critical), \<open>b\<close> (data, 20 bytes, read last), \<open>c\<close> (data, 30 bytes, never read: no
  timestamp) and \<open>d\<close> (data, 5 bytes).\<close>

definition shelf :: state where
  "shelf = fresh\<lparr>resources :=
     DAList.update ''d''
       \<lparr>size_bytes = Some 5, hash = Some (replicate 5 CHR ''a''), category = Some ''data'',
        priority = Some 3, created = Some ''2024-01-01T00:00:00'',
        last_accessed = Some ''2024-01-01T00:00:00'', access_count = Some 0, version = Some 1\<rparr>
    (DAList.update ''c''
       \<lparr>size_bytes = Some 30, hash = Some (replicate 30 CHR ''a''), category = Some ''data'',
        priority = Some 4, created = Some ''2024-01-01T00:00:00'',
        last_accessed = None, access_count = Some 0, version = Some 1\<rparr>
    (DAList.update ''b''
       \<lparr>size_bytes = Some 20, hash = Some (replicate 20 CHR ''a''), category = Some ''data'',
        priority = Some 4, created = Some ''2024-01-01T00:00:00'',
        last_accessed = Some ''2024-01-11T12:00:00'', access_count = Some 0, version = Some 1\<rparr>
    (DAList.update ''a''
       \<lparr>size_bytes = Some 10, hash = Some (replicate 10 CHR ''a''), category = Some ''config'',
        priority = Some 1, created = Some ''2024-01-01T00:00:00'',
        last_accessed = Some ''2024-01-01T00:00:00'', access_count = Some 2, version = Some 1\<rparr>
     DAList.empty))),
     files :=
       [''/srv/vram/a.dat'' \<mapsto> replicate 10 1, ''/srv/vram/b.dat'' \<mapsto> replicate 20 2,
        ''/srv/vram/c.dat'' \<mapsto> replicate 30 3, ''/srv/vram/d.dat'' \<mapsto> replicate 5 4]\<rparr>"

text \<open>A ledger of two records, the critical \<open>a\<close> of 1 byte and the low-priority
  \<open>z\<close> of \<open>3 * 2 ^ 53 - 2\<close> bytes: together one byte short of 1.5 times
  \<open>2 ^ 54\<close>.\<close>

definition vast :: state where
  "vast = fresh\<lparr>resources :=
     DAList.update ''z''
       \<lparr>size_bytes = Some (3 * 2 ^ 53 - 2), hash = Some ''z'', category = Some ''data'',
        priority = Some 4, created = Some ''2024-01-01T00:00:00'',
        last_accessed = Some ''2024-01-01T00:00:00'', access_count = Some 0, version = Some 1\<rparr>
    (DAList.update ''a''
       \<lparr>size_bytes = Some 1, hash = Some ''a'', category = Some ''config'',
        priority = Some 1, created = Some ''2024-01-01T00:00:00'',
        last_accessed = Some ''2024-01-01T00:00:00'', access_count = Some 0, version = Some 1\<rparr>
     DAList.empty)\<rparr>"

section \<open>The eviction score and order as the specification words them\<close>



text \<open>The timestamp that the scoring loop parses:
  \<^verbatim>\<open>meta.get('last_accessed', '1970-01-01T00:00:00')\<close>.\<close>

definition timestamp_read :: "resource_meta \<Rightarrow> string" where
  "timestamp_read meta =
     (case last_accessed meta of None \<Rightarrow> ''1970-01-01T00:00:00'' | Some t \<Rightarrow> t)"



definition cand_size :: "candidate \<Rightarrow> int" where
  "cand_size c = fst (snd (snd c))"

definition cand_priority :: "candidate \<Rightarrow> int" where
  "cand_priority c = snd (snd (snd c))"

definition finish :: "int \<Rightarrow> (candidate list \<times> int) option \<times> state \<Rightarrow> report \<times> state" where
  "finish current_size r =
     (case r of
        (None, s2) \<Rightarrow> (OptimizationFailed, s2)
      | (Some (deleted_resources, freed_space), s2) \<Rightarrow>
          (OptimizationCompleted deleted_resources freed_space (current_size - freed_space), s2))"

section \<open>Ledger and payload files in step\<close>

text \<open>The invariant of the data model: every record has its payload file, whose
  bytes have the digest that the record holds, and every payload file belongs to a
  record.\<close>

definition consistent :: "env \<Rightarrow> state \<Rightarrow> bool" where
  "consistent E s \<longleftrightarrow>
     (\<forall>rid m. DAList.lookup (resources s) rid = Some m \<longrightarrow>
        (\<exists>data. files s (payload_file E s rid) = Some data \<and>
                hash m = Some (sha256_hexdigest E data))) \<and>
     (\<forall>p. files s p \<noteq> None \<longrightarrow>
        (\<exists>rid. DAList.lookup (resources s) rid \<noteq> None \<and> payload_file E s rid = p))"

text \<open>No two identifiers of the ledger are stored in the same file: their paths
  name different files.\<close>

definition unshared_paths :: "env \<Rightarrow> state \<Rightarrow> bool" where
  "unshared_paths E s \<longleftrightarrow>
     (\<forall>rid rid'. DAList.lookup (resources s) rid \<noteq> None \<and>
                 DAList.lookup (resources s) rid' \<noteq> None \<and>
                 payload_file E s rid = payload_file E s rid' \<longrightarrow> rid = rid')"

text \<open>The same bytes stored under \<open>y\<close> and under the absolute identifier
  \<open>/srv/vram/y\<close>: \<^verbatim>\<open>os.path.join\<close> gives both the file \<open>/srv/vram/y.dat\<close>.\<close>

definition twins :: state where
  "twins =
     snd (store_resource stub_env
            (snd (store_resource stub_env fresh ''y'' (Bytes [1, 2, 3]) ''general'' 4))
            ''/srv/vram/y'' (Bytes [1, 2, 3]) ''general'' 1)"

text \<open>Both together: what the operations are shown to keep.\<close>

definition kept :: "env \<Rightarrow> state \<Rightarrow> bool" where
  "kept E s \<longleftrightarrow> consistent E s \<and> unshared_paths E s"

section \<open>Properties\<close>

subsection \<open>What saving and storing leave behind\<close>

lemma save_metadata_resources [simp]: "resources (save_metadata E s) = resources s"
  by (simp add: save_metadata_def now_def Let_def split: save_result.splits)

lemma save_metadata_files [simp]: "files (save_metadata E s) = files s"
  by (simp add: save_metadata_def now_def Let_def split: save_result.splits)

lemma save_metadata_resource_dir [simp]: "resource_dir (save_metadata E s) = resource_dir s"
  by (simp add: save_metadata_def now_def Let_def split: save_result.splits)

lemma payload_file_save_metadata [simp]:
  "payload_file E' (save_metadata E s) rid = payload_file E' s rid"
  by (simp add: payload_file_def get_file_path_def)

lemma payload_file_frame:
  "resource_dir s' = resource_dir s \<Longrightarrow> payload_file E s' rid = payload_file E s rid"
  by (simp add: payload_file_def get_file_path_def)

lemma store_resource_True:
  assumes "store_resource E s rid c cat p = (True, s')"
  obtains data where "to_bytes c = Some data" "write_outcome E (tick s) = Written"
    "files s' = (files s)(payload_file E s rid \<mapsto> data)"
    "resources s' = DAList.update rid
        \<lparr>size_bytes = Some (int (length data)), hash = Some (sha256_hexdigest E data),
         category = Some cat, priority = Some p,
         created = Some (isoformat E (clock E (Suc (tick s)))),
         last_accessed = Some (isoformat E (clock E (Suc (Suc (tick s))))),
         access_count = Some 0, version = Some 1\<rparr> (resources s)"
    "resource_dir s' = resource_dir s"
  using assms
  by (auto simp: store_resource_def now_def Let_def split: option.splits write_result.splits)

lemma stub_env_fields:
  "sha256_hexdigest stub_env d = replicate (length d) CHR ''a''"
  "isoformat stub_env t =
     (case map_of (map prod.swap stub_times) t of None \<Rightarrow> ''2024-01-01T00:00:00'' | Some x \<Rightarrow> x)"
  "fromisoformat stub_env = map_of stub_times"
  "clock stub_env n = 1704974400000000"
  "write_outcome stub_env n = Written"
  "read_raises stub_env n = False"
  "remove_raises stub_env n = False"
  "save_outcome stub_env n = Saved"
  "cwd stub_env = ''/srv''"
  "realpath stub_env = normpath"
  by (simp_all add: stub_env_def)

lemma fresh_fields:
  "resource_dir fresh = ''/srv/vram''"
  "resources fresh = DAList.empty"
  "files fresh = Map.empty"
  "metadata_file fresh = None"
  "tick fresh = 2"
  by (simp_all add: fresh_def init_empty_def abspath_def normpath_def norm_step_def Let_def)

lemma stub_paths:
  "normpath ''/srv/vram/cfg.dat'' = ''/srv/vram/cfg.dat''"
  "normpath ''/srv/vram/lib.dat'' = ''/srv/vram/lib.dat''"
  "normpath ''/srv/vram/y.dat'' = ''/srv/vram/y.dat''"
  "normpath ''/srv/vram/a/b.dat'' = ''/srv/vram/a/b.dat''"
  "normpath ''/srv/vram/a.dat'' = ''/srv/vram/a.dat''"
  "normpath ''/srv/vram/b.dat'' = ''/srv/vram/b.dat''"
  "normpath ''/srv/vram/c.dat'' = ''/srv/vram/c.dat''"
  "normpath ''/srv/vram/d.dat'' = ''/srv/vram/d.dat''"
  by (simp_all add: normpath_def norm_step_def Let_def)

lemmas run_store =
  store_resource_def to_bytes_def utf8_code_point_def payload_file_def get_file_path_def
  path_join_def now_def Let_def save_metadata_def fresh_fields stub_env_fields stub_times_def
  stub_paths

subsection \<open>store: which failures reach the caller\<close>

text \<open>C3, as amended. \<^verbatim>\<open>store_resource\<close> returns \<open>False\<close> exactly when the content cannot
  be turned into bytes or the payload write fails, and \<open>True\<close> otherwise: a failure to
  save the ledger is caught inside \<^verbatim>\<open>_save_metadata\<close> and does not change the result.
  No exception leaves the method, since every branch of the model returns.\<close>

theorem store_reports_write_failure:
  "(to_bytes c = None \<or> write_outcome E (tick s) \<noteq> Written
      \<longrightarrow> fst (store_resource E s rid c cat p) = False) \<and>
   (to_bytes c \<noteq> None \<and> write_outcome E (tick s) = Written
      \<longrightarrow> fst (store_resource E s rid c cat p) = True)"
  by (auto simp: store_resource_def now_def Let_def split: option.splits write_result.splits)

theorem store_reports_write_failure_witness:
  "fst (store_resource readonly_env fresh ''cfg'' (Text [0x68, 0x69]) ''general'' 1) = False \<and>
   fst (store_resource stub_env fresh ''cfg'' (Text [0x68, 0x69]) ''general'' 1) = True"
  using store_reports_write_failure [of "Text [0x68, 0x69]" readonly_env fresh
      "''cfg''" "''general''" 1]
    store_reports_write_failure [of "Text [0x68, 0x69]" stub_env fresh
      "''cfg''" "''general''" 1]
  by (simp add: to_bytes_def utf8_code_point_def stub_env_fields readonly_env_def)

text \<open>C3 as the specification states it fails: on a disk where saving the ledger
  fails, the payload is written, nothing is persisted, and the result is \<open>True\<close>.\<close>

theorem store_persist_failure_counterexample:
  "save_outcome unsaved_env (tick fresh + 4) = DumpFailed \<and>
   fst (store_resource unsaved_env fresh ''cfg'' (Text [0x68, 0x69]) ''general'' 1) = True \<and>
   metadata_file (snd (store_resource unsaved_env fresh ''cfg'' (Text [0x68, 0x69])
                         ''general'' 1)) = None"
  by (simp add: run_store unsaved_env_def)

subsection \<open>store, then get\<close>

text \<open>C4, as amended. After a \<^verbatim>\<open>store_resource\<close> of a string that returns \<open>True\<close>,
  \<^verbatim>\<open>get_resource\<close> of the same identifier returns the UTF-8 encoding of the string,
  and after one of bytes it returns these bytes (the read of the payload file not
  failing).\<close>

theorem store_get_roundtrip:
  assumes "store_resource E s rid c cat p = (True, s')"
    and "\<not> read_raises E (tick s')"
  shows "(\<forall>x. c = Text x \<longrightarrow> fst (get_resource E s' rid) = encode_utf8 x) \<and>
         (\<forall>b. c = Bytes b \<longrightarrow> fst (get_resource E s' rid) = Some b)"
proof -
  from assms(1) obtain data where d: "to_bytes c = Some data"
    "files s' = (files s)(payload_file E s rid \<mapsto> data)"
    "resources s' = DAList.update rid
        \<lparr>size_bytes = Some (int (length data)), hash = Some (sha256_hexdigest E data),
         category = Some cat, priority = Some p,
         created = Some (isoformat E (clock E (Suc (tick s)))),
         last_accessed = Some (isoformat E (clock E (Suc (Suc (tick s))))),
         access_count = Some 0, version = Some 1\<rparr> (resources s)"
    "resource_dir s' = resource_dir s"
    by (rule store_resource_True)
  have p: "payload_file E s' rid = payload_file E s rid"
    using d(4) by (rule payload_file_frame)
  have "fst (get_resource E s' rid) = Some data"
    using assms(2) d(2,3) p by (simp add: get_resource_def now_def Let_def)
  with d(1) show ?thesis by (auto simp: to_bytes_def)
qed

theorem store_get_roundtrip_witness:
  "store_resource stub_env fresh ''cfg'' (Text [0x68, 0xE9, 0x20AC]) ''general'' 1
     = (True, stored_text) \<and>
   \<not> read_raises stub_env (tick stored_text) \<and>
   fst (get_resource stub_env stored_text ''cfg'') = Some [0x68, 0xC3, 0xA9, 0xE2, 0x82, 0xAC]"
  using store_get_roundtrip [of stub_env fresh "''cfg''" "Text [0x68, 0xE9, 0x20AC]"
      "''general''" 1 stored_text]
  by (simp add: stored_text_def run_store)

text \<open>C4 as the specification states it, for every identifier and content, fails
  where the store does: a string with a lone surrogate has no UTF-8 encoding, and the
  file of an identifier such as \<open>a/b\<close> cannot be opened when the directory has no
  subdirectory \<open>a\<close>; in both cases \<^verbatim>\<open>store_resource\<close> returns \<open>False\<close> and
  \<^verbatim>\<open>get_resource\<close> returns \<open>None\<close>.\<close>

theorem store_failure_roundtrip_counterexample:
  "fst (store_resource stub_env fresh ''cfg'' (Text [0xD800]) ''general'' 1) = False \<and>
   fst (get_resource stub_env
          (snd (store_resource stub_env fresh ''cfg'' (Text [0xD800]) ''general'' 1)) ''cfg'')
     = None \<and>
   fst (store_resource readonly_env fresh ''a/b'' (Bytes [1, 2]) ''general'' 1) = False \<and>
   fst (get_resource readonly_env
          (snd (store_resource readonly_env fresh ''a/b'' (Bytes [1, 2]) ''general'' 1)) ''a/b'')
     = None"
  by (simp add: run_store readonly_env_def get_resource_def)

subsection \<open>store installs a fresh record\<close>

text \<open>C5. A successful \<^verbatim>\<open>store_resource\<close> leaves under the identifier a record that
  owes nothing to an earlier one: the size and digest of the new payload, the given
  category and priority, \<open>created\<close> and \<open>last_accessed\<close> taken from the two readings
  of the clock that the call makes, \<open>access_count\<close> 0 and \<open>version\<close> 1.\<close>

theorem store_installs_fresh_record:
  assumes "store_resource E s rid c cat p = (True, s')"
  shows "\<exists>data. to_bytes c = Some data \<and>
           DAList.lookup (resources s') rid =
             Some \<lparr>size_bytes = Some (int (length data)),
                   hash = Some (sha256_hexdigest E data),
                   category = Some cat,
                   priority = Some p,
                   created = Some (isoformat E (clock E (tick s + 1))),
                   last_accessed = Some (isoformat E (clock E (tick s + 2))),
                   access_count = Some 0,
                   version = Some 1\<rparr>"
  using assms by (elim store_resource_True) simp

lemma read_thrice_count:
  "map_option access_count (DAList.lookup (resources read_thrice) ''cfg'') = Some (Some 3)"
  by (simp add: read_thrice_def stored_text_def run_store get_resource_def)

text \<open>Overwriting after three reads: the count goes from 3 back to 0.\<close>

theorem store_installs_fresh_record_witness:
  "map_option access_count (DAList.lookup (resources read_thrice) ''cfg'') = Some (Some 3) \<and>
   store_resource stub_env read_thrice ''cfg'' (Bytes [1, 2]) ''general'' 1
     = (True, overwritten) \<and>
   map_option access_count (DAList.lookup (resources overwritten) ''cfg'') = Some (Some 0) \<and>
   map_option version (DAList.lookup (resources overwritten) ''cfg'') = Some (Some 1)"
proof -
  have st: "store_resource stub_env read_thrice ''cfg'' (Bytes [1, 2]) ''general'' 1
              = (True, overwritten)"
    by (simp add: overwritten_def store_resource_def to_bytes_def Let_def now_def stub_env_fields)
  from store_installs_fresh_record [OF st] read_thrice_count st
  show ?thesis by auto
qed

subsection \<open>get: absent resources and orphaned records\<close>

lemma keys_lookup: "k \<in> fst ` set (DAList.impl_of al) \<longleftrightarrow> DAList.lookup al k \<noteq> None"
  by (simp add: DAList.lookup.rep_eq map_of_eq_None_iff)

lemma set_py_slice: "set (py_slice xs a b) \<subseteq> set xs"
  by (auto simp: py_slice_def Let_def dest: in_set_takeD in_set_dropD)

lemma set_sort_reverse [simp]: "set (sort_reverse f xs) = set xs"
  by (simp add: sort_reverse_def)

lemma info_resource_id_make_info [simp]: "info_resource_id (make_info e) = fst e"
  by (simp add: make_info_def split: prod.splits)

lemma list_resources_ids:
  assumes "x \<in> set (list_resources s cat ms page pp)"
  shows "DAList.lookup (resources s) (info_resource_id x) \<noteq> None"
proof -
  from assms have "x \<in> make_info ` set (DAList.impl_of (resources s))"
    using set_py_slice by (fastforce simp: list_resources_def Let_def)
  then obtain e where e: "e \<in> set (DAList.impl_of (resources s))" "x = make_info e"
    by blast
  then have "fst e \<in> fst ` set (DAList.impl_of (resources s))" by simp
  with e(2) show ?thesis by (simp add: keys_lookup)
qed

text \<open>C6. \<^verbatim>\<open>get_resource\<close> returns \<open>None\<close> for an identifier without a record; for
  a record whose payload file is missing it returns \<open>None\<close> as well and removes the
  record, so that no later listing, whatever its arguments, shows the identifier.\<close>

theorem get_absent:
  "(DAList.lookup (resources s) rid = None \<longrightarrow> fst (get_resource E s rid) = None) \<and>
   (DAList.lookup (resources s) rid \<noteq> None \<and> files s (payload_file E s rid) = None \<longrightarrow>
      fst (get_resource E s rid) = None \<and>
      DAList.lookup (resources (snd (get_resource E s rid))) rid = None \<and>
      (\<forall>cat ms page pp.
         \<forall>x \<in> set (list_resources (snd (get_resource E s rid)) cat ms page pp).
           info_resource_id x \<noteq> rid))"
proof (intro conjI impI)
  assume "DAList.lookup (resources s) rid = None"
  then show "fst (get_resource E s rid) = None" by (simp add: get_resource_def)
next
  assume a: "DAList.lookup (resources s) rid \<noteq> None \<and> files s (payload_file E s rid) = None"
  then show "fst (get_resource E s rid) = None" by (auto simp: get_resource_def)
  from a show gone: "DAList.lookup (resources (snd (get_resource E s rid))) rid = None"
    by (auto simp: get_resource_def)
  show "\<forall>cat ms page pp.
          \<forall>x \<in> set (list_resources (snd (get_resource E s rid)) cat ms page pp).
            info_resource_id x \<noteq> rid"
    using gone list_resources_ids by blast
qed

theorem get_absent_witness:
  "DAList.lookup (resources fresh) ''cfg'' = None \<and>
   fst (get_resource stub_env fresh ''cfg'') = None \<and>
   DAList.lookup (resources orphaned) ''cfg'' \<noteq> None \<and>
   files orphaned (payload_file stub_env orphaned ''cfg'') = None \<and>
   fst (get_resource stub_env orphaned ''cfg'') = None \<and>
   DAList.lookup (resources (snd (get_resource stub_env orphaned ''cfg''))) ''cfg'' = None \<and>
   list_resources (snd (get_resource stub_env orphaned ''cfg'')) None None 1 50 = []"
  using get_absent [of fresh "''cfg''" stub_env] get_absent [of orphaned "''cfg''" stub_env]
  apply (simp add: orphaned_def stored_text_def run_store)
  apply (simp add: get_resource_def list_resources_def Let_def DAList.delete.rep_eq
      DAList.update.rep_eq DAList.empty.rep_eq py_slice_def sort_reverse_def)
  done

subsection \<open>delete\<close>

text \<open>C7, as amended. \<^verbatim>\<open>delete_resource\<close> returns \<open>False\<close> exactly when there is no
  record for the identifier or the removal of its existing payload file raises, and
  then it leaves the ledger and the files as they were: the record, where there is
  one, is kept. In every other case (the file removed, or missing already) it returns
  \<open>True\<close>, the file and the record are gone, \<^verbatim>\<open>get_resource\<close> then returns \<open>None\<close>
  and a second \<^verbatim>\<open>delete_resource\<close> returns \<open>False\<close>.\<close>

theorem delete_result:
  "(fst (delete_resource E s rid) = False \<longleftrightarrow>
      DAList.lookup (resources s) rid = None \<or>
      (files s (payload_file E s rid) \<noteq> None \<and> remove_raises E (tick s))) \<and>
   (fst (delete_resource E s rid) = False \<longrightarrow>
      resources (snd (delete_resource E s rid)) = resources s \<and>
      files (snd (delete_resource E s rid)) = files s) \<and>
   (fst (delete_resource E s rid) = True \<longrightarrow>
      files (snd (delete_resource E s rid)) (payload_file E s rid) = None \<and>
      DAList.lookup (resources (snd (delete_resource E s rid))) rid = None \<and>
      fst (get_resource E (snd (delete_resource E s rid)) rid) = None \<and>
      fst (delete_resource E (snd (delete_resource E s rid)) rid) = False)"
proof -
  have 1: "fst (delete_resource E s rid) = False \<longleftrightarrow>
      DAList.lookup (resources s) rid = None \<or>
      (files s (payload_file E s rid) \<noteq> None \<and> remove_raises E (tick s))"
    by (auto simp: delete_resource_def Let_def split: option.splits)
  have 2: "DAList.lookup (resources (snd (delete_resource E s rid))) rid = None"
    if "fst (delete_resource E s rid) = True"
    using that by (auto simp: delete_resource_def Let_def split: option.splits if_splits)
  have 3: "files (snd (delete_resource E s rid)) (payload_file E s rid) = None"
    if "fst (delete_resource E s rid) = True"
    using that by (auto simp: delete_resource_def Let_def split: option.splits if_splits)
  have 4: "resources (snd (delete_resource E s rid)) = resources s \<and>
      files (snd (delete_resource E s rid)) = files s"
    if "fst (delete_resource E s rid) = False"
    using that by (auto simp: delete_resource_def Let_def split: option.splits if_splits)
  have 5: "fst (get_resource E (snd (delete_resource E s rid)) rid) = None \<and>
      fst (delete_resource E (snd (delete_resource E s rid)) rid) = False"
    if "fst (delete_resource E s rid) = True"
    using 2 [OF that]
    by (simp add: get_resource_def delete_resource_def [of E "snd (delete_resource E s rid)"])
  from 1 2 3 4 5 show ?thesis by blast
qed

text \<open>C7 as the specification states it fails: the record exists, the removal of the
  payload file raises, and the result is \<open>False\<close> with the record still there.\<close>

theorem delete_remove_failure_counterexample:
  "DAList.lookup (resources stored_text) ''cfg'' \<noteq> None \<and>
   fst (delete_resource locked_env stored_text ''cfg'') = False \<and>
   DAList.lookup (resources (snd (delete_resource locked_env stored_text ''cfg''))) ''cfg''
     \<noteq> None"
  by (simp add: stored_text_def run_store delete_resource_def locked_env_def)

theorem delete_result_witness:
  "fst (delete_resource stub_env fresh ''cfg'') = False \<and>
   fst (delete_resource stub_env orphaned ''cfg'') = True \<and>
   fst (delete_resource stub_env stored_text ''cfg'') = True \<and>
   files (snd (delete_resource stub_env stored_text ''cfg'')) ''/srv/vram/cfg.dat'' = None \<and>
   fst (get_resource stub_env (snd (delete_resource stub_env stored_text ''cfg'')) ''cfg'')
     = None \<and>
   fst (delete_resource stub_env (snd (delete_resource stub_env stored_text ''cfg'')) ''cfg'')
     = False \<and>
   fst (delete_resource locked_env stored_text ''cfg'') = False \<and>
   resources (snd (delete_resource locked_env stored_text ''cfg'')) = resources stored_text \<and>
   files (snd (delete_resource locked_env stored_text ''cfg'')) = files stored_text"
  using delete_result [of locked_env stored_text "''cfg''"]
    delete_result [of stub_env fresh "''cfg''"] delete_result [of stub_env orphaned "''cfg''"]
    delete_result [of stub_env stored_text "''cfg''"]
  by (simp add: orphaned_def stored_text_def run_store locked_env_def)

subsection \<open>list: a size limit of 0\<close>

text \<open>C10. With \<^verbatim>\<open>max_size=0\<close> the size test of \<^verbatim>\<open>list_resources\<close> skips no record,
  whatever its size, and the result is the one computed without a size limit.\<close>

theorem list_max_size_zero:
  "\<not> skipped_by_size (Some 0) meta \<and>
   list_resources s cat (Some 0) page per_page = list_resources s cat None page per_page"
  by (simp add: skipped_by_size_def list_resources_def)

lemmas run_ledger = DAList.delete.rep_eq DAList.update.rep_eq DAList.empty.rep_eq

lemmas run_list =
  list_resources_def py_slice_def slice_index_def sort_reverse_def skipped_by_category_def
  skipped_by_size_def make_info_def recency_key_def

text \<open>The stored resource has 6 bytes and is listed under a limit of 0.\<close>

theorem list_max_size_zero_witness:
  "\<not> skipped_by_size (Some 0)
       \<lparr>size_bytes = Some 6, hash = None, category = None, priority = None, created = None,
        last_accessed = None, access_count = None, version = None\<rparr> \<and>
   map info_size (list_resources stored_text None (Some 0) 1 50) = [6]"
  using list_max_size_zero [of "\<lparr>size_bytes = Some 6, hash = None, category = None,
      priority = None, created = None, last_accessed = None, access_count = None,
      version = None\<rparr>" stored_text None 1 50]
  by (simp add: stored_text_def run_store run_list run_ledger)

subsection \<open>list: filter, order, page\<close>

lemma py_slice_page:
  assumes "0 \<le> start" "0 \<le> n"
  shows "py_slice xs start (start + n) = take (nat n) (drop (nat start) xs)"
proof (cases "nat start \<le> length xs")
  case True
  have a: "slice_index start (length xs) = nat start"
    using assms True by (simp add: slice_index_def)
  have b: "slice_index (start + n) (length xs) - nat start
      = min (nat n) (length (drop (nat start) xs))"
    using assms True by (simp add: slice_index_def nat_add_distrib) arith
  show ?thesis
    unfolding py_slice_def Let_def a b by (simp add: min_def)
next
  case False
  with assms show ?thesis by (simp add: py_slice_def slice_index_def Let_def)
qed

lemma sorted_sort_reverse: "sorted_wrt (\<lambda>a b. f b \<le> f a) (sort_reverse f xs)"
proof -
  have "sorted (map f (sort_key f (rev xs)))" by simp
  then have "sorted_wrt (\<lambda>a b. f a \<le> f b) (sort_key f (rev xs))"
    by (simp add: sorted_map)
  then show ?thesis by (simp add: sort_reverse_def sorted_wrt_rev)
qed

lemma mset_sort_reverse [simp]: "mset (sort_reverse f xs) = mset xs"
  by (simp add: sort_reverse_def)

lemma spec_matches_iff:
  assumes "cat \<noteq> Some []" "ms \<noteq> Some 0"
  shows "(\<not> skipped_by_category cat m \<and> \<not> skipped_by_size ms m) = spec_matches cat ms m"
  using assms
  by (auto simp: skipped_by_category_def skipped_by_size_def spec_matches_def split: option.splits)

text \<open>C9, as amended. For a category other than the empty string, a size limit other
  than 0, a page from 1 on and a page size that is not negative, \<^verbatim>\<open>list_resources\<close>
  returns a page of an ordering of exactly the matching records: the ordering is
  descending in the timestamp string, a missing or empty timestamp counting as
  \<open>1970-01-01\<close>; the page is the positions from \<open>(page - 1) * per_page\<close> up to
  \<open>page * per_page\<close>, and it is empty when the ordering ends before it.\<close>

theorem list_resources_filtered_ordered_paged:
  assumes "cat \<noteq> Some []" and "ms \<noteq> Some 0" and "1 \<le> page" and "0 \<le> per_page"
  shows "\<exists>ordered.
           mset ordered = mset (map make_info
               (filter (\<lambda>e. spec_matches cat ms (snd e)) (DAList.impl_of (resources s)))) \<and>
           sorted_wrt (\<lambda>a b. recency_key b \<le> recency_key a) ordered \<and>
           list_resources s cat ms page per_page
             = take (nat per_page) (drop (nat ((page - 1) * per_page)) ordered) \<and>
           (int (length ordered) \<le> (page - 1) * per_page \<longrightarrow>
              list_resources s cat ms page per_page = [])"
proof -
  let ?found = "map make_info
     (filter (\<lambda>e. spec_matches cat ms (snd e)) (DAList.impl_of (resources s)))"
  let ?ordered = "sort_reverse recency_key ?found"
  have start: "0 \<le> (page - 1) * per_page" using assms(3,4) by simp
  have "list_resources s cat ms page per_page
      = py_slice ?ordered ((page - 1) * per_page) ((page - 1) * per_page + per_page)"
    by (simp add: list_resources_def Let_def spec_matches_iff [OF assms(1,2)])
  also have "\<dots> = take (nat per_page) (drop (nat ((page - 1) * per_page)) ?ordered)"
    using start assms(4) by (rule py_slice_page)
  finally have eq: "list_resources s cat ms page per_page
      = take (nat per_page) (drop (nat ((page - 1) * per_page)) ?ordered)" .
  have "list_resources s cat ms page per_page = []"
    if "int (length ?ordered) \<le> (page - 1) * per_page"
    using that eq by simp
  with eq show ?thesis
    using sorted_sort_reverse [of recency_key ?found] mset_sort_reverse [of recency_key ?found]
    by blast
qed


theorem list_resources_filtered_ordered_paged_witness:
  "Some ''data'' \<noteq> Some [] \<and> Some (25::int) \<noteq> Some 0 \<and> (1::int) \<le> 2 \<and> (0::int) \<le> 1 \<and>
   map info_resource_id (list_resources shelf (Some ''data'') (Some 25) 1 50) = [''b'', ''d''] \<and>
   map info_resource_id (list_resources shelf (Some ''data'') (Some 25) 2 1) = [''d''] \<and>
   map info_resource_id (list_resources shelf (Some ''data'') (Some 25) 3 1) = []"
  using list_resources_filtered_ordered_paged [of "Some ''data''" "Some 25" 2 1 shelf]
  by (simp add: shelf_def run_list run_ledger)

text \<open>C9 as the specification states it fails where an argument is given but false in
  Python: under \<^verbatim>\<open>max_size=0\<close> all four records are listed, none of which has size
  0, and under \<^verbatim>\<open>category=''\<close> all four are listed, none of which has that category.\<close>

theorem list_falsy_filter_counterexample:
  "map info_size (list_resources shelf None (Some 0) 1 50) = [20, 10, 5, 30] \<and>
   map info_category (list_resources shelf (Some []) None 1 50)
     = [''data'', ''config'', ''data'', ''data'']"
  by (simp add: shelf_def run_list run_ledger)

subsection \<open>optimize: scores and order\<close>




lemma evaluate_resources_fields:
  "resources (snd (evaluate_resources E s entries)) = resources s \<and>
   files (snd (evaluate_resources E s entries)) = files s \<and>
   resource_dir (snd (evaluate_resources E s entries)) = resource_dir s"
proof (induction entries arbitrary: s)
  case Nil
  then show ?case by simp
next
  case (Cons e entries)
  obtain rid meta where e: "e = (rid, meta)" by (cases e)
  show ?case
  proof (cases "fromisoformat E (timestamp_read meta)")
    case None
    then show ?thesis by (simp add: e timestamp_read_def [symmetric])
  next
    case (Some accessed)
    then show ?thesis
      using Cons.IH [of "s\<lparr>tick := Suc (tick s)\<rparr>"]
      by (auto simp: e now_def Let_def timestamp_read_def [symmetric] split: prod.splits)
  qed
qed





lemmas run_optimize =
  optimize_storage_def effective_max_size_def total_size_def eviction_key_def
  microseconds_per_day_def delete_resource_def quotient_below_1_5_def


subsection \<open>optimize: critical resources at moderate overage\<close>

text \<open>When the test of the code answers for a given quotient.\<close>

lemma quotient_below_exact:
  assumes "0 < b" "0 \<le> a" "real_of_int a / real_of_int b < 1.5 - 1 / 2 ^ 53"
  shows "quotient_below_1_5 a b = Some True"
proof -
  define q where "q = real_of_int a / real_of_int b"
  have "0 \<le> q" using assms(1,2) by (simp add: q_def)
  moreover have "q < 3 / 2 - 1 / 2 ^ 53" using assms(3) by (simp add: q_def)
  moreover have "(3 / 2 - 1 / 2 ^ 53 :: real) < 2" by simp
  ultimately have "\<bar>q\<bar> < 2" by linarith
  moreover have "(2::real) \<le> 2 ^ 1024 - 2 ^ 970" by simp
  ultimately have "\<not> 2 ^ 1024 - 2 ^ 970 \<le> \<bar>q\<bar>" by linarith
  with \<open>q < 3 / 2 - 1 / 2 ^ 53\<close> assms(1) show ?thesis
    unfolding quotient_below_1_5_def q_def [symmetric] by simp
qed

lemma quotient_small_budget:
  assumes "0 < b" "b < 2 ^ 52" "2 * a < 3 * b"
  shows "real_of_int a / real_of_int b < 1.5 - 1 / 2 ^ 53"
proof -
  from assms(3) have "2 * a + 1 \<le> 3 * b" by simp
  then have "real_of_int (2 * a + 1) \<le> real_of_int (3 * b)" by (simp only: of_int_le_iff)
  then have 1: "2 * real_of_int a + 1 \<le> 3 * real_of_int b" by simp
  from assms(2) have "real_of_int b < real_of_int (2 ^ 52)" by (simp only: of_int_less_iff)
  then have 2: "real_of_int b < 2 ^ 52" by simp
  have pos: "0 < real_of_int b" using assms(1) by simp
  have "real_of_int a * 2 ^ 53 < (3 * 2 ^ 52 - 1) * real_of_int b"
  proof -
    have "real_of_int a * 2 ^ 53 = (2 * real_of_int a) * 2 ^ 52" by simp
    also have "\<dots> \<le> (3 * real_of_int b - 1) * 2 ^ 52" using 1 by simp
    also have "\<dots> = (3 * 2 ^ 52 - 1) * real_of_int b + (real_of_int b - 2 ^ 52)"
      by (simp add: algebra_simps)
    also have "\<dots> < (3 * 2 ^ 52 - 1) * real_of_int b" using 2 by simp
    finally show ?thesis .
  qed
  then have "real_of_int a / real_of_int b < (3 * 2 ^ 52 - 1) / 2 ^ 53"
    using pos by (simp add: field_simps)
  then show ?thesis by simp
qed

text \<open>The test stays true while space is freed and the loop goes on.\<close>

lemma abs_quotient_less:
  fixes c f m :: real
  assumes "m \<noteq> 0" "\<bar>c / m\<bar> < T" "c / m < h" "1 < h" "1 < T" "0 \<le> f" "m < c - f"
  shows "\<bar>(c - f) / m\<bar> < T \<and> (c - f) / m < h"
proof (cases "0 < m")
  case True
  define q where "q = c / m"
  define q' where "q' = (c - f) / m"
  have le: "q' \<le> q" unfolding q_def q'_def using True assms(6) by (simp add: divide_right_mono)
  have pos: "0 < q'" unfolding q'_def using True assms(7) by simp
  from assms(2,3) have "\<bar>q\<bar> < T" "q < h" by (simp_all add: q_def)
  with le pos have "\<bar>q'\<bar> < T \<and> q' < h" by linarith
  then show ?thesis by (simp add: q'_def)
next
  case False
  with assms(1) have neg: "m < 0" by simp
  define q where "q = c / m"
  define q' where "q' = (c - f) / m"
  from assms(2) have aq: "\<bar>q\<bar> < T" by (simp add: q_def)
  have below: "q' < 1" unfolding q'_def using neg assms(7) by (simp add: field_simps)
  have diff: "q' - q = f / (- m)" unfolding q_def q'_def using neg by (simp add: field_simps)
  have "0 \<le> f / (- m)" using neg assms(6) by (intro divide_nonneg_pos) simp_all
  with diff have ge: "q \<le> q'" by linarith
  have "- T < q" using aq by linarith
  with ge below assms(5) have "\<bar>q'\<bar> < T" by linarith
  with below assms(4) have "\<bar>q'\<bar> < T \<and> q' < h" by linarith
  then show ?thesis by (simp add: q'_def)
qed

lemma ratio_int:
  assumes "0 < b" "real_of_int a / real_of_int b < 1.5"
  shows "2 * a < 3 * b"
proof -
  have pos: "0 < real_of_int b" using assms(1) by simp
  from assms(2) have "real_of_int a / real_of_int b < 3 / 2" by simp
  then have "real_of_int a < 3 / 2 * real_of_int b" using pos by (simp add: pos_divide_less_eq)
  then have "real_of_int (2 * a) < real_of_int (3 * b)" by simp
  then show ?thesis by (simp only: of_int_less_iff)
qed

lemma quotient_below_freed:
  assumes "quotient_below_1_5 current_size max_size = Some True"
    and "0 \<le> freed" and "\<not> current_size - freed \<le> max_size"
  shows "quotient_below_1_5 (current_size - freed) max_size = Some True"
proof -
  from assms(1) have m: "max_size \<noteq> 0"
    and fin: "\<bar>real_of_int current_size / real_of_int max_size\<bar> < 2 ^ 1024 - 2 ^ 970"
    and low: "real_of_int current_size / real_of_int max_size < 3 / 2 - 1 / 2 ^ 53"
    by (auto simp: quotient_below_1_5_def split: if_splits)
  have h: "(1::real) < 3 / 2 - 1 / 2 ^ 53" by simp
  have T: "(1::real) < 2 ^ 1024 - 2 ^ 970" by simp
  from assms(3) have "max_size < current_size - freed" by simp
  then have "real_of_int max_size < real_of_int (current_size - freed)"
    by (simp only: of_int_less_iff)
  then have gt: "real_of_int max_size < real_of_int current_size - real_of_int freed" by simp
  have f: "0 \<le> real_of_int freed" using assms(2) by simp
  have m': "real_of_int max_size \<noteq> 0" using m by simp
  from abs_quotient_less [OF m' fin low h T f gt]
  have "\<bar>real_of_int (current_size - freed) / real_of_int max_size\<bar> < 2 ^ 1024 - 2 ^ 970"
    "real_of_int (current_size - freed) / real_of_int max_size < 3 / 2 - 1 / 2 ^ 53"
    by simp_all
  with m show ?thesis by (simp add: quotient_below_1_5_def)
qed

text \<open>What a deletion leaves alone.\<close>

lemma delete_resource_other:
  "rid' \<noteq> rid \<Longrightarrow>
     DAList.lookup (resources (snd (delete_resource E s rid))) rid'
       = DAList.lookup (resources s) rid'"
  by (simp add: delete_resource_def Let_def split: option.splits)

lemma delete_resource_other_file:
  "p \<noteq> payload_file E s rid \<Longrightarrow> files (snd (delete_resource E s rid)) p = files s p"
  by (simp add: delete_resource_def Let_def split: option.splits)

lemma delete_resource_dir [simp]:
  "resource_dir (snd (delete_resource E s rid)) = resource_dir s"
  by (simp add: delete_resource_def Let_def split: option.splits)

lemma evict_loop_protects:
  assumes test: "quotient_below_1_5 current_size max_size = Some True"
    and "0 \<le> freed"
    and "\<forall>c \<in> set cands. 0 \<le> cand_size c"
  shows "(\<forall>rid. (\<forall>c \<in> set cands. fst c = rid \<longrightarrow> cand_priority c = 1) \<longrightarrow>
            DAList.lookup (resources (snd (evict_loop E max_size current_size cands s
                deleted freed))) rid
              = DAList.lookup (resources s) rid) \<and>
         (\<forall>p. (\<forall>c \<in> set cands. payload_file E s (fst c) = p \<longrightarrow> cand_priority c = 1) \<longrightarrow>
            files (snd (evict_loop E max_size current_size cands s deleted freed)) p
              = files s p) \<and>
         (\<forall>d f. fst (evict_loop E max_size current_size cands s deleted freed) = Some (d, f) \<longrightarrow>
            set d \<subseteq> set deleted \<union> {c \<in> set cands. cand_priority c \<noteq> 1})"
  using assms(2,3)
proof (induction cands arbitrary: s deleted freed)
  case Nil
  then show ?case by simp
next
  case (Cons c cands)
  obtain rid score sz prio where c: "c = (rid, score, sz, prio)" by (cases c)
  from Cons.prems have sz: "0 \<le> sz" and rest: "\<forall>c \<in> set cands. 0 \<le> cand_size c"
    by (simp_all add: c cand_size_def)
  let ?run = "evict_loop E max_size current_size (c # cands) s deleted freed"
  show ?case
  proof (cases "current_size - freed \<le> max_size")
    case True
    then show ?thesis by (simp add: c)
  next
    case False
    show ?thesis
    proof (cases "prio = 1")
      case True
      from quotient_below_freed [OF test Cons.prems(1) False]
      have step: "?run = evict_loop E max_size current_size cands s deleted freed"
        using False True by (simp add: c)
      from Cons.IH [OF Cons.prems(1) rest, of s deleted]
      show ?thesis unfolding step by auto
    next
      case neq: False
      obtain b s' where del: "delete_resource E s rid = (b, s')"
        by (cases "delete_resource E s rid")
      have keep: "DAList.lookup (resources s') rid' = DAList.lookup (resources s) rid'"
        if "rid' \<noteq> rid" for rid'
        using delete_resource_other [OF that, of E s] del by simp
      have keep_file: "files s' p = files s p" if "p \<noteq> payload_file E s rid" for p
        using delete_resource_other_file [OF that] del by simp
      have dir: "payload_file E s' r = payload_file E s r" for r
        using delete_resource_dir [of E s rid] del by (intro payload_file_frame) simp
      have prio_c: "cand_priority c \<noteq> 1" "fst c = rid"
        using neq by (simp_all add: c cand_priority_def)
      define deleted' where "deleted' = (if b then deleted @ [c] else deleted)"
      define freed' where "freed' = (if b then freed + sz else freed)"
      have step: "?run = evict_loop E max_size current_size cands s' deleted' freed'"
        using False neq del by (cases b) (simp_all add: c deleted'_def freed'_def)
      have acc: "0 \<le> freed'" "set deleted' \<subseteq> set deleted \<union> {c}"
        using Cons.prems(1) sz by (auto simp: deleted'_def freed'_def)
      note ih = Cons.IH [OF acc(1) rest, of s' deleted']
      have 1: "DAList.lookup (resources (snd ?run)) rid' = DAList.lookup (resources s) rid'"
        if p: "\<forall>x \<in> set (c # cands). fst x = rid' \<longrightarrow> cand_priority x = 1" for rid'
      proof -
        from p prio_c have "rid' \<noteq> rid" by auto
        with p ih keep show ?thesis by (simp add: step)
      qed
      have 2: "files (snd ?run) p = files s p"
        if p: "\<forall>x \<in> set (c # cands). payload_file E s (fst x) = p \<longrightarrow> cand_priority x = 1"
        for p
      proof -
        from p prio_c have "p \<noteq> payload_file E s rid" by auto
        with p ih keep_file show ?thesis by (simp add: step dir)
      qed
      have 3: "set d \<subseteq> set deleted \<union> {x \<in> set (c # cands). cand_priority x \<noteq> 1}"
        if "fst ?run = Some (d, f)" for d f
      proof -
        from that ih have "set d \<subseteq> set deleted' \<union> {x \<in> set cands. cand_priority x \<noteq> 1}"
          by (simp add: step)
        with acc(2) prio_c(1) show ?thesis by auto
      qed
      from 1 2 3 show ?thesis by blast
    qed
  qed
qed

lemma evaluate_resources_origin:
  assumes "evaluate_resources E s entries = (Some cands, s1)" and "c \<in> set cands"
  shows "\<exists>e \<in> set entries. fst c = fst e \<and>
           cand_priority c = (case priority (snd e) of None \<Rightarrow> 3 | Some p \<Rightarrow> p) \<and>
           cand_size c = (case size_bytes (snd e) of None \<Rightarrow> 0 | Some n \<Rightarrow> n)"
  using assms
proof (induction entries arbitrary: s cands s1)
  case Nil
  then show ?case by simp
next
  case (Cons e entries)
  obtain rid meta where e: "e = (rid, meta)" by (cases e)
  from Cons.prems(1) obtain accessed where
    acc: "fromisoformat E (timestamp_read meta) = Some accessed"
    by (cases "fromisoformat E (timestamp_read meta)")
       (simp_all add: e timestamp_read_def [symmetric])
  obtain r s2 where rec: "evaluate_resources E (s\<lparr>tick := Suc (tick s)\<rparr>) entries = (r, s2)"
    by (cases "evaluate_resources E (s\<lparr>tick := Suc (tick s)\<rparr>) entries")
  from Cons.prems(1) acc rec obtain c0 cs where
    cs: "cands = c0 # cs" "r = Some cs" "fst c0 = rid"
        "cand_priority c0 = (case priority meta of None \<Rightarrow> 3 | Some p \<Rightarrow> p)"
        "cand_size c0 = (case size_bytes meta of None \<Rightarrow> 0 | Some n \<Rightarrow> n)"
    by (auto simp: e now_def Let_def timestamp_read_def [symmetric] cand_priority_def
        cand_size_def)
  show ?case
  proof (cases "c = c0")
    case True
    with cs show ?thesis by (simp add: e)
  next
    case False
    with Cons.prems(2) cs(1) have "c \<in> set cs" by simp
    from Cons.IH [OF rec [unfolded cs(2)] this] show ?thesis by auto
  qed
qed

lemma entry_lookup:
  "e \<in> set (DAList.impl_of al) \<Longrightarrow> DAList.lookup al (fst e) = Some (snd e)"
  by (simp add: DAList.lookup.rep_eq)

text \<open>C2, as amended. In the eviction loop a priority-1 candidate that is reached
  while the quotient of the remaining size by the budget, as the double that the code
  computes, is below 1.5, is passed over: the loop goes on with the rest, with the same
  state, the same list of deletions and the same freed space. That double is below 1.5
  whenever the exact quotient of a non-negative size by a positive budget is below
  \<open>1.5 - 2 ^ -53\<close>, and so whenever it is below 1.5 and the budget is below
  \<open>2 ^ 52\<close>. Hence, when the total size passes the test against the budget (sizes
  being non-negative), \<^verbatim>\<open>optimize_storage\<close> leaves every priority-1 record in the
  ledger as it was, leaves its payload file as it was when no two identifiers share a
  file, and reports no priority-1 deletion, whether or not the other deletions reach
  the budget.\<close>

theorem optimize_protects_critical:
  "(\<not> current_size - freed \<le> max_size \<and>
    quotient_below_1_5 (current_size - freed) max_size = Some True \<longrightarrow>
      evict_loop E max_size current_size ((rid, score, sz, 1) # rest) s deleted freed
        = evict_loop E max_size current_size rest s deleted freed) \<and>
   (0 < b \<and> 0 \<le> a \<and> real_of_int a / real_of_int b < 1.5 - 1 / 2 ^ 53 \<longrightarrow>
      quotient_below_1_5 a b = Some True) \<and>
   (0 < b \<and> b < 2 ^ 52 \<and> 0 \<le> a \<and> real_of_int a / real_of_int b < 1.5 \<longrightarrow>
      quotient_below_1_5 a b = Some True) \<and>
   (quotient_below_1_5 (total_size s) (effective_max_size max_size') = Some True \<and>
    (\<forall>e \<in> set (DAList.impl_of (resources s)).
        0 \<le> (case size_bytes (snd e) of None \<Rightarrow> 0 | Some n \<Rightarrow> n)) \<longrightarrow>
      (\<forall>rid m. DAList.lookup (resources s) rid = Some m \<and> priority m = Some 1 \<longrightarrow>
          DAList.lookup (resources (snd (optimize_storage E s max_size'))) rid = Some m \<and>
          (unshared_paths E s \<longrightarrow>
             files (snd (optimize_storage E s max_size')) (payload_file E s rid)
               = files s (payload_file E s rid))) \<and>
      (\<forall>d f final. fst (optimize_storage E s max_size') = OptimizationCompleted d f final \<longrightarrow>
          (\<forall>c \<in> set d. cand_priority c \<noteq> 1)))"
proof (intro conjI impI)
  assume "\<not> current_size - freed \<le> max_size \<and>
    quotient_below_1_5 (current_size - freed) max_size = Some True"
  then show "evict_loop E max_size current_size ((rid, score, sz, 1) # rest) s deleted freed
        = evict_loop E max_size current_size rest s deleted freed"
    by simp
next
  assume "0 < b \<and> 0 \<le> a \<and> real_of_int a / real_of_int b < 1.5 - 1 / 2 ^ 53"
  then show "quotient_below_1_5 a b = Some True" by (simp add: quotient_below_exact)
next
  assume a: "0 < b \<and> b < 2 ^ 52 \<and> 0 \<le> a \<and> real_of_int a / real_of_int b < 1.5"
  then have "2 * a < 3 * b" by (intro ratio_int) simp_all
  with a have "real_of_int a / real_of_int b < 1.5 - 1 / 2 ^ 53"
    by (intro quotient_small_budget) simp_all
  with a show "quotient_below_1_5 a b = Some True" by (intro quotient_below_exact) simp_all
next
  assume a: "quotient_below_1_5 (total_size s) (effective_max_size max_size') = Some True \<and>
    (\<forall>e \<in> set (DAList.impl_of (resources s)).
        0 \<le> (case size_bytes (snd e) of None \<Rightarrow> 0 | Some n \<Rightarrow> n))"
  let ?max = "effective_max_size max_size'"
  let ?cur = "total_size s"
  let ?entries = "DAList.impl_of (resources s)"
  let ?opt = "optimize_storage E s max_size'"
  have goal: "(\<forall>rid m. DAList.lookup (resources s) rid = Some m \<and> priority m = Some 1 \<longrightarrow>
          DAList.lookup (resources (snd ?opt)) rid = Some m \<and>
          (unshared_paths E s \<longrightarrow>
             files (snd ?opt) (payload_file E s rid) = files s (payload_file E s rid))) \<and>
      (\<forall>d f final. fst ?opt = OptimizationCompleted d f final \<longrightarrow>
          (\<forall>c \<in> set d. cand_priority c \<noteq> 1))"
  proof (cases "?cur \<le> ?max")
    case True
    then show ?thesis by (simp add: optimize_storage_def Let_def)
  next
    case over: False
    obtain r s1 where ev: "evaluate_resources E s ?entries = (r, s1)"
      by (cases "evaluate_resources E s ?entries")
    from evaluate_resources_fields [of E s ?entries] ev
    have s1: "resources s1 = resources s" "files s1 = files s" "resource_dir s1 = resource_dir s"
      by simp_all
    show ?thesis
    proof (cases r)
      case None
      with over ev s1 show ?thesis by (simp add: optimize_storage_def Let_def)
    next
      case (Some cands)
      let ?order = "sort_key eviction_key cands"
      let ?run = "evict_loop E ?max ?cur ?order s1 [] 0"
      have opt: "?opt = finish ?cur ?run"
        using over ev Some by (simp add: optimize_storage_def Let_def finish_def)
      have sizes: "\<forall>c \<in> set ?order. 0 \<le> cand_size c"
      proof
        fix c assume "c \<in> set ?order"
        then have "c \<in> set cands" by simp
        from evaluate_resources_origin [OF ev [unfolded Some] this] a
        show "0 \<le> cand_size c" by auto
      qed
      from a have test: "quotient_below_1_5 ?cur ?max = Some True" by simp
      note prot = evict_loop_protects [OF test order_refl sizes, of E s1 "[]"]
      have critical: "cand_priority c = 1"
        if m: "DAList.lookup (resources s) rid = Some m" "priority m = Some 1"
          and c: "c \<in> set ?order" "fst c = rid" for rid m c
      proof -
        from c(1) have "c \<in> set cands" by simp
        from evaluate_resources_origin [OF ev [unfolded Some] this] obtain e where
          e: "e \<in> set ?entries" "fst c = fst e"
             "cand_priority c = (case priority (snd e) of None \<Rightarrow> 3 | Some p \<Rightarrow> p)"
          by blast
        from entry_lookup [OF e(1)] e(2) c(2) m(1) have "snd e = m" by simp
        with e(3) m(2) show ?thesis by simp
      qed
      have recorded: "DAList.lookup (resources s) (fst c) \<noteq> None" if "c \<in> set ?order" for c
      proof -
        from that have "c \<in> set cands" by simp
        from evaluate_resources_origin [OF ev [unfolded Some] this] obtain e where
          e: "e \<in> set ?entries" "fst c = fst e" by blast
        from entry_lookup [OF e(1)] e(2) show ?thesis by simp
      qed
      have kept_record: "DAList.lookup (resources (snd ?run)) rid = Some m"
        if m: "DAList.lookup (resources s) rid = Some m" "priority m = Some 1" for rid m
      proof -
        from critical [OF m] have "\<forall>c \<in> set ?order. fst c = rid \<longrightarrow> cand_priority c = 1"
          by blast
        with prot have "DAList.lookup (resources (snd ?run)) rid
            = DAList.lookup (resources s1) rid" by blast
        with s1(1) m(1) show ?thesis by simp
      qed
      have kept_file: "files (snd ?run) (payload_file E s rid) = files s (payload_file E s rid)"
        if m: "DAList.lookup (resources s) rid = Some m" "priority m = Some 1"
          and u: "unshared_paths E s" for rid m
      proof -
        have same: "payload_file E s1 r = payload_file E s r" for r
          using s1(3) by (rule payload_file_frame)
        have "cand_priority c = 1"
          if c: "c \<in> set ?order" "payload_file E s1 (fst c) = payload_file E s rid" for c
        proof -
          from c(2) have "payload_file E s (fst c) = payload_file E s rid" by (simp add: same)
          with u recorded [OF c(1)] m(1) have "fst c = rid"
            unfolding unshared_paths_def by blast
          with critical [OF m c(1)] show ?thesis by simp
        qed
        then have "\<forall>c \<in> set ?order. payload_file E s1 (fst c) = payload_file E s rid \<longrightarrow>
            cand_priority c = 1" by blast
        with prot have "files (snd ?run) (payload_file E s rid)
            = files s1 (payload_file E s rid)" by blast
        with s1(2) show ?thesis by simp
      qed
      have clean: "\<forall>c \<in> set d. cand_priority c \<noteq> 1" if "fst ?run = Some (d, f)" for d f
        using prot that by auto
      have res: "resources (snd (finish ?cur ?run)) = resources (snd ?run)"
        "files (snd (finish ?cur ?run)) = files (snd ?run)"
        by (simp_all add: finish_def split: prod.splits option.splits)
      have rep: "\<exists>f. fst ?run = Some (d, f)"
        if "fst (finish ?cur ?run) = OptimizationCompleted d f' final" for d f' final
        using that by (auto simp: finish_def split: prod.splits option.splits)
      show ?thesis
        unfolding opt
      proof (intro conjI allI impI)
        fix rid m
        assume m: "DAList.lookup (resources s) rid = Some m \<and> priority m = Some 1"
        then show "DAList.lookup (resources (snd (finish ?cur ?run))) rid = Some m"
          using kept_record [of rid m] by (simp add: res)
        assume "unshared_paths E s"
        with m show "files (snd (finish ?cur ?run)) (payload_file E s rid)
            = files s (payload_file E s rid)"
          using kept_file [of rid m] by (simp add: res)
      next
        fix d f final
        assume "fst (finish ?cur ?run) = OptimizationCompleted d f final"
        from rep [OF this] obtain f' where "fst ?run = Some (d, f')" by blast
        from clean [OF this] show "\<forall>c \<in> set d. cand_priority c \<noteq> 1" .
      qed
    qed
  qed
  from goal show "\<forall>rid m. DAList.lookup (resources s) rid = Some m \<and> priority m = Some 1 \<longrightarrow>
          DAList.lookup (resources (snd ?opt)) rid = Some m \<and>
          (unshared_paths E s \<longrightarrow>
             files (snd ?opt) (payload_file E s rid) = files s (payload_file E s rid))"
    by blast
  from goal show "\<forall>d f final. fst ?opt = OptimizationCompleted d f final \<longrightarrow>
          (\<forall>c \<in> set d. cand_priority c \<noteq> 1)"
    by blast
qed

lemma shelf_unshared: "unshared_paths stub_env shelf"
proof -
  have ids: "rid = ''a'' \<or> rid = ''b'' \<or> rid = ''c'' \<or> rid = ''d''"
    if "DAList.lookup (resources shelf) rid \<noteq> None" for rid
    using that by (simp add: shelf_def DAList.lookup_update split: if_splits)
  have paths: "payload_file stub_env shelf ''a'' = ''/srv/vram/a.dat''"
    "payload_file stub_env shelf ''b'' = ''/srv/vram/b.dat''"
    "payload_file stub_env shelf ''c'' = ''/srv/vram/c.dat''"
    "payload_file stub_env shelf ''d'' = ''/srv/vram/d.dat''"
    by (simp_all add: shelf_def payload_file_def get_file_path_def path_join_def fresh_fields
        stub_env_fields stub_paths)
  show ?thesis
    unfolding unshared_paths_def
  proof (intro allI impI, elim conjE)
    fix rid rid'
    assume a: "DAList.lookup (resources shelf) rid \<noteq> None"
      "DAList.lookup (resources shelf) rid' \<noteq> None"
      "payload_file stub_env shelf rid = payload_file stub_env shelf rid'"
    from ids [OF a(1)] ids [OF a(2)] a(3) show "rid = rid'"
      by (elim disjE) (simp_all add: paths)
  qed
qed

theorem optimize_protects_critical_witness:
  "\<not> (65::int) - 0 \<le> 55 \<and> quotient_below_1_5 (65 - 0) 55 = Some True \<and>
   evict_loop stub_env 55 65 [(''a'', 410, 10, 1)] shelf [] 0 = (Some ([], 0), shelf) \<and>
   (0::int) < 55 \<and> (55::int) < 2 ^ 52 \<and> real_of_int 65 / real_of_int 55 < 1.5 \<and>
   quotient_below_1_5 (total_size shelf) (effective_max_size (Some 55)) = Some True \<and>
   map (\<lambda>e. case size_bytes (snd e) of None \<Rightarrow> 0 | Some n \<Rightarrow> n)
     (DAList.impl_of (resources shelf)) = [10, 20, 30, 5] \<and>
   map_option priority (DAList.lookup (resources shelf) ''a'') = Some (Some 1) \<and>
   unshared_paths stub_env shelf \<and>
   fst (optimize_storage stub_env shelf (Some 55))
     = OptimizationCompleted [(''d'', 190, 5, 3), (''c'', - 19633, 30, 4)] 35 30 \<and>
   DAList.lookup (resources (snd (optimize_storage stub_env shelf (Some 55)))) ''a''
     = DAList.lookup (resources shelf) ''a'' \<and>
   files (snd (optimize_storage stub_env shelf (Some 55))) ''/srv/vram/a.dat''
     = files shelf ''/srv/vram/a.dat'' \<and>
   files (snd (optimize_storage stub_env shelf (Some 55))) ''/srv/vram/d.dat'' = None"
  using optimize_protects_critical [where max_size = 55 and current_size = 65 and freed = 0
      and E = stub_env and rid = "''a''" and score = 410 and sz = 10 and rest = "[]"
      and s = shelf and deleted = "[]" and max_size' = "Some 55" and a = 65 and b = 55]
    shelf_unshared
  by (simp add: shelf_def run_optimize run_ledger run_store timestamp_read_def)

text \<open>C2 as the specification states it fails for sizes beyond the precision of a
  double. The total is above the budget \<open>2 ^ 54\<close> and below 1.5 times it, and deleting
  \<open>z\<close> alone would bring it within the budget; but the quotient is rounded to 1.5, the
  critical \<open>a\<close>, considered first, is not passed over, and \<^verbatim>\<open>optimize_storage\<close> deletes
  it.\<close>

theorem float_quotient_counterexample:
  "effective_max_size (Some (2 ^ 54)) < total_size vast \<and>
   real_of_int (total_size vast) / real_of_int (effective_max_size (Some (2 ^ 54))) < 1.5 \<and>
   total_size vast - (3 * 2 ^ 53 - 2) \<le> effective_max_size (Some (2 ^ 54)) \<and>
   map_option priority (DAList.lookup (resources vast) ''a'') = Some (Some 1) \<and>
   quotient_below_1_5 (total_size vast) (effective_max_size (Some (2 ^ 54))) = Some False \<and>
   DAList.lookup (resources (snd (optimize_storage stub_env vast (Some (2 ^ 54))))) ''a'' = None"
  by (simp add: vast_def run_optimize run_ledger run_store timestamp_read_def)

subsection \<open>The invariant under the operations\<close>

lemma kept_frame:
  assumes "resources s' = resources s" "files s' = files s" "resource_dir s' = resource_dir s"
  shows "kept E s' = kept E s"
  using assms by (simp add: kept_def consistent_def unshared_paths_def payload_file_def get_file_path_def)

lemma delete_resource_cases:
  obtains (same) "resources (snd (delete_resource E s rid)) = resources s"
      "files (snd (delete_resource E s rid)) = files s"
      "resource_dir (snd (delete_resource E s rid)) = resource_dir s"
  | (gone) "DAList.lookup (resources s) rid \<noteq> None"
      "resources (snd (delete_resource E s rid)) = DAList.delete rid (resources s)"
      "files (snd (delete_resource E s rid)) = (files s)(payload_file E s rid := None)"
      "resource_dir (snd (delete_resource E s rid)) = resource_dir s"
proof (cases "DAList.lookup (resources s) rid")
  case None
  then show ?thesis using same by (simp add: delete_resource_def)
next
  case (Some m)
  show ?thesis
  proof (cases "files s (payload_file E s rid)")
    case None
    then have "(files s)(payload_file E s rid := None) = files s" by auto
    with Some None show ?thesis using gone by (simp add: delete_resource_def)
  next
    case (Some d)
    show ?thesis
    proof (cases "remove_raises E (tick s)")
      case True
      with \<open>DAList.lookup (resources s) rid = Some m\<close> Some show ?thesis
        using same by (simp add: delete_resource_def)
    next
      case False
      with \<open>DAList.lookup (resources s) rid = Some m\<close> Some show ?thesis
        using gone by (simp add: delete_resource_def)
    qed
  qed
qed

lemma kept_delete:
  assumes "kept E s"
  shows "kept E (snd (delete_resource E s rid))"
proof (cases rule: delete_resource_cases [of E s rid])
  case same
  from kept_frame [OF same, of E] assms show ?thesis by simp
next
  case gone
  let ?s = "snd (delete_resource E s rid)"
  have path: "payload_file E ?s r = payload_file E s r" for r
    using gone(4) by (simp add: payload_file_def get_file_path_def)
  have look: "DAList.lookup (resources ?s) r = (if r = rid then None else DAList.lookup (resources s) r)" for r
    using gone(2) by simp
  from assms have c: "consistent E s" and u: "unshared_paths E s" by (simp_all add: kept_def)
  have 1: "\<exists>data. files ?s (payload_file E ?s r) = Some data \<and> hash m = Some (sha256_hexdigest E data)"
    if "DAList.lookup (resources ?s) r = Some m" for r m
  proof -
    from that have r: "r \<noteq> rid" "DAList.lookup (resources s) r = Some m"
      by (auto simp: look split: if_splits)
    with u gone(1) have "payload_file E s r \<noteq> payload_file E s rid"
      unfolding unshared_paths_def by (metis option.distinct(1))
    moreover from c r(2) obtain data where
      "files s (payload_file E s r) = Some data" "hash m = Some (sha256_hexdigest E data)"
      unfolding consistent_def by blast
    ultimately show ?thesis by (simp add: path gone(3))
  qed
  have 2: "\<exists>r. DAList.lookup (resources ?s) r \<noteq> None \<and> payload_file E ?s r = p"
    if "files ?s p \<noteq> None" for p
  proof -
    from that have p: "p \<noteq> payload_file E s rid" "files s p \<noteq> None"
      by (auto simp: gone(3) split: if_splits)
    with c obtain r where r: "DAList.lookup (resources s) r \<noteq> None" "payload_file E s r = p"
      unfolding consistent_def by blast
    with p(1) have "r \<noteq> rid" by auto
    with r show ?thesis by (intro exI [of _ r]) (simp add: look path)
  qed
  have 3: "unshared_paths E ?s"
    unfolding unshared_paths_def
  proof (intro allI impI, elim conjE)
    fix r r'
    assume a: "DAList.lookup (resources ?s) r \<noteq> None"
      "DAList.lookup (resources ?s) r' \<noteq> None"
      "payload_file E ?s r = payload_file E ?s r'"
    from a(1) have "DAList.lookup (resources s) r \<noteq> None" by (simp add: look split: if_splits)
    moreover from a(2) have "DAList.lookup (resources s) r' \<noteq> None"
      by (simp add: look split: if_splits)
    moreover from a(3) have "payload_file E s r = payload_file E s r'" by (simp add: path)
    ultimately show "r = r'" using u unfolding unshared_paths_def by blast
  qed
  show ?thesis
    unfolding kept_def consistent_def
  proof (intro conjI allI impI)
    fix r m assume "DAList.lookup (resources ?s) r = Some m"
    then show "\<exists>data. files ?s (payload_file E ?s r) = Some data \<and>
        hash m = Some (sha256_hexdigest E data)" by (rule 1)
  next
    fix p assume "files ?s p \<noteq> None"
    then show "\<exists>r. DAList.lookup (resources ?s) r \<noteq> None \<and> payload_file E ?s r = p"
      by (rule 2)
  next
    show "unshared_paths E ?s" by (rule 3)
  qed
qed


lemma get_resource_cases:
  obtains (same) "resources (snd (get_resource E s rid)) = resources s"
      "files (snd (get_resource E s rid)) = files s"
      "resource_dir (snd (get_resource E s rid)) = resource_dir s"
  | (healed) "DAList.lookup (resources s) rid \<noteq> None" "files s (payload_file E s rid) = None"
      "resources (snd (get_resource E s rid)) = DAList.delete rid (resources s)"
      "files (snd (get_resource E s rid)) = files s"
      "resource_dir (snd (get_resource E s rid)) = resource_dir s"
  | (touched) m m' where "DAList.lookup (resources s) rid = Some m" "hash m' = hash m"
      "resources (snd (get_resource E s rid)) = DAList.update rid m' (resources s)"
      "files (snd (get_resource E s rid)) = files s"
      "resource_dir (snd (get_resource E s rid)) = resource_dir s"
proof (cases "DAList.lookup (resources s) rid")
  case None
  then show ?thesis using same by (simp add: get_resource_def)
next
  case m: (Some m)
  show ?thesis
  proof (cases "files s (payload_file E s rid)")
    case None
    with m show ?thesis using healed by (simp add: get_resource_def)
  next
    case d: (Some d)
    show ?thesis
    proof (cases "read_raises E (tick s)")
      case True
      with m d show ?thesis using same by (simp add: get_resource_def)
    next
      case False
      show ?thesis
      proof (cases "access_count m")
        case None
        with m d False show ?thesis
          using touched [of m "m\<lparr>last_accessed := Some (isoformat E (clock E (Suc (tick s))))\<rparr>"]
          by (simp add: get_resource_def now_def Let_def)
      next
        case (Some n)
        with m d False show ?thesis
          using touched [of m "m\<lparr>last_accessed := Some (isoformat E (clock E (Suc (tick s)))),
                                 access_count := Some (n + 1)\<rparr>"]
          by (simp add: get_resource_def now_def Let_def)
      qed
    qed
  qed
qed

lemma kept_get:
  assumes "kept E s"
  shows "kept E (snd (get_resource E s rid))"
proof (cases rule: get_resource_cases [of E s rid])
  case same
  from kept_frame [OF same, of E] assms show ?thesis by simp
next
  case healed
  from assms healed(1,2) have False unfolding kept_def consistent_def by fastforce
  then show ?thesis ..
next
  case (touched m m')
  let ?s = "snd (get_resource E s rid)"
  have path: "payload_file E ?s r = payload_file E s r" for r
    using touched(5) by (simp add: payload_file_def get_file_path_def)
  have look: "DAList.lookup (resources ?s) r
      = (if r = rid then Some m' else DAList.lookup (resources s) r)" for r
    using touched(3) by (simp add: DAList.lookup_update)
  from assms have c: "consistent E s" and u: "unshared_paths E s" by (simp_all add: kept_def)
  have dom: "(DAList.lookup (resources ?s) r \<noteq> None) = (DAList.lookup (resources s) r \<noteq> None)"
    for r using touched(1) by (simp add: look)
  show ?thesis
    unfolding kept_def consistent_def
  proof (intro conjI allI impI)
    fix r x assume a: "DAList.lookup (resources ?s) r = Some x"
    then obtain y where y: "DAList.lookup (resources s) r = Some y" "hash x = hash y"
      using touched(1,2) by (auto simp: look split: if_splits)
    with c obtain data where "files s (payload_file E s r) = Some data"
      "hash y = Some (sha256_hexdigest E data)"
      unfolding consistent_def by blast
    with y(2) show "\<exists>data. files ?s (payload_file E ?s r) = Some data \<and>
        hash x = Some (sha256_hexdigest E data)"
      by (simp add: path touched(4))
  next
    fix p assume "files ?s p \<noteq> None"
    then have "files s p \<noteq> None" by (simp add: touched(4))
    with c obtain r where r: "DAList.lookup (resources s) r \<noteq> None" "payload_file E s r = p"
      unfolding consistent_def by blast
    from r(1) dom [of r] have "DAList.lookup (resources ?s) r \<noteq> None" by blast
    moreover from r(2) have "payload_file E ?s r = p" by (simp only: path)
    ultimately show "\<exists>r. DAList.lookup (resources ?s) r \<noteq> None \<and> payload_file E ?s r = p"
      by blast
  next
    show "unshared_paths E ?s"
      using u unfolding unshared_paths_def by (simp only: dom path)
  qed
qed


lemma store_resource_cases:
  obtains (same) "resources (snd (store_resource E s rid c cat p)) = resources s"
      "files (snd (store_resource E s rid c cat p)) = files s"
      "resource_dir (snd (store_resource E s rid c cat p)) = resource_dir s"
  | (written) data m where "hash m = Some (sha256_hexdigest E data)"
      "resources (snd (store_resource E s rid c cat p)) = DAList.update rid m (resources s)"
      "files (snd (store_resource E s rid c cat p)) = (files s)(payload_file E s rid \<mapsto> data)"
      "resource_dir (snd (store_resource E s rid c cat p)) = resource_dir s"
  | (partial) part where "write_outcome E (tick s) = WriteFailed part"
proof (cases "to_bytes c")
  case None
  then show ?thesis using same by (simp add: store_resource_def)
next
  case (Some data)
  show ?thesis
  proof (cases "write_outcome E (tick s)")
    case Written
    with Some have "fst (store_resource E s rid c cat p) = True"
      by (simp add: store_resource_def now_def Let_def)
    then have "store_resource E s rid c cat p = (True, snd (store_resource E s rid c cat p))"
      by (simp add: prod_eq_iff)
    then show ?thesis
    proof (rule store_resource_True)
      fix d
      assume "to_bytes c = Some d"
        "files (snd (store_resource E s rid c cat p)) = (files s)(payload_file E s rid \<mapsto> d)"
        "resources (snd (store_resource E s rid c cat p)) = DAList.update rid
           \<lparr>size_bytes = Some (int (length d)), hash = Some (sha256_hexdigest E d),
            category = Some cat, priority = Some p,
            created = Some (isoformat E (clock E (Suc (tick s)))),
            last_accessed = Some (isoformat E (clock E (Suc (Suc (tick s))))),
            access_count = Some 0, version = Some 1\<rparr> (resources s)"
        "resource_dir (snd (store_resource E s rid c cat p)) = resource_dir s"
      then show ?thesis by (intro written [of _ d]) simp_all
    qed
  next
    case OpenFailed
    with Some show ?thesis using same by (simp add: store_resource_def Let_def)
  next
    case (WriteFailed part)
    then show ?thesis using partial by simp
  qed
qed

lemma kept_store:
  assumes "kept E s"
    and alone: "\<forall>rid'. DAList.lookup (resources s) rid' \<noteq> None \<and> rid' \<noteq> rid \<longrightarrow>
                  payload_file E s rid' \<noteq> payload_file E s rid"
    and whole: "\<forall>part. write_outcome E (tick s) \<noteq> WriteFailed part"
  shows "kept E (snd (store_resource E s rid c cat p))"
proof (cases rule: store_resource_cases [of E s rid c cat p])
  case same
  from kept_frame [OF same, of E] assms(1) show ?thesis by simp
next
  case (partial part)
  with whole show ?thesis by simp
next
  case (written data m)
  let ?s = "snd (store_resource E s rid c cat p)"
  have path: "payload_file E ?s r = payload_file E s r" for r
    using written(4) by (simp add: payload_file_def get_file_path_def)
  have look: "DAList.lookup (resources ?s) r
      = (if r = rid then Some m else DAList.lookup (resources s) r)" for r
    using written(2) by (simp add: DAList.lookup_update)
  from assms(1) have c: "consistent E s" and u: "unshared_paths E s" by (simp_all add: kept_def)
  show ?thesis
    unfolding kept_def consistent_def
  proof (intro conjI allI impI)
    fix r x assume a: "DAList.lookup (resources ?s) r = Some x"
    show "\<exists>d. files ?s (payload_file E ?s r) = Some d \<and> hash x = Some (sha256_hexdigest E d)"
    proof (cases "r = rid")
      case True
      with a have "x = m" by (simp add: look)
      with True written(1) show ?thesis by (simp add: path written(3))
    next
      case False
      with a have x: "DAList.lookup (resources s) r = Some x" by (simp add: look)
      with False alone have "payload_file E s r \<noteq> payload_file E s rid" by simp
      moreover from c x obtain d where "files s (payload_file E s r) = Some d"
        "hash x = Some (sha256_hexdigest E d)"
        unfolding consistent_def by blast
      ultimately show ?thesis by (simp add: path written(3))
    qed
  next
    fix q assume q: "files ?s q \<noteq> None"
    show "\<exists>r. DAList.lookup (resources ?s) r \<noteq> None \<and> payload_file E ?s r = q"
    proof (cases "q = payload_file E s rid")
      case True
      then show ?thesis by (intro exI [of _ rid]) (simp add: look path)
    next
      case False
      with q have "files s q \<noteq> None" by (simp add: written(3))
      with c obtain r where r: "DAList.lookup (resources s) r \<noteq> None" "payload_file E s r = q"
        unfolding consistent_def by blast
      then show ?thesis by (intro exI [of _ r]) (simp add: look path)
    qed
  next
    show "unshared_paths E ?s"
      unfolding unshared_paths_def
    proof (intro allI impI, elim conjE)
      fix r r'
      assume a: "DAList.lookup (resources ?s) r \<noteq> None"
        "DAList.lookup (resources ?s) r' \<noteq> None"
        "payload_file E ?s r = payload_file E ?s r'"
      from a(3) have same_path: "payload_file E s r = payload_file E s r'" by (simp add: path)
      show "r = r'"
      proof (cases "r = rid")
        case r: True
        show ?thesis
        proof (cases "r' = rid")
          case True
          with r show ?thesis by simp
        next
          case False
          with a(2) have "DAList.lookup (resources s) r' \<noteq> None" by (simp add: look)
          with False alone same_path r show ?thesis by auto
        qed
      next
        case r: False
        with a(1) have in_r: "DAList.lookup (resources s) r \<noteq> None" by (simp add: look)
        show ?thesis
        proof (cases "r' = rid")
          case True
          with r in_r alone same_path show ?thesis by auto
        next
          case False
          with a(2) have "DAList.lookup (resources s) r' \<noteq> None" by (simp add: look)
          with in_r same_path u show ?thesis unfolding unshared_paths_def by blast
        qed
      qed
    qed
  qed
qed

lemma kept_evict_loop:
  "kept E s \<Longrightarrow> kept E (snd (evict_loop E max_size current_size cands s deleted freed))"
proof (induction cands arbitrary: s deleted freed)
  case Nil
  then show ?case by simp
next
  case (Cons c cands)
  obtain rid score sz prio where c: "c = (rid, score, sz, prio)" by (cases c)
  obtain b s' where del: "delete_resource E s rid = (b, s')"
    by (cases "delete_resource E s rid")
  from kept_delete [OF Cons.prems, of rid] del have "kept E s'" by simp
  from Cons.IH [OF this] Cons.IH [OF Cons.prems] Cons.prems del
  show ?case by (cases b) (simp_all add: c split: option.splits bool.splits)
qed

lemma kept_optimize:
  assumes "kept E s"
  shows "kept E (snd (optimize_storage E s max_size'))"
proof -
  let ?entries = "DAList.impl_of (resources s)"
  obtain r s1 where ev: "evaluate_resources E s ?entries = (r, s1)"
    by (cases "evaluate_resources E s ?entries")
  from evaluate_resources_fields [of E s ?entries] ev
  have "resources s1 = resources s" "files s1 = files s" "resource_dir s1 = resource_dir s"
    by simp_all
  from kept_frame [OF this, of E] assms have s1: "kept E s1" by simp
  have "kept E (snd (finish cur (evict_loop E m cur cands s1 [] 0)))" for cur m cands
    using kept_evict_loop [OF s1, of m cur cands "[]" 0]
    by (auto simp: finish_def split: prod.splits option.splits)
  with assms s1 ev show ?thesis
    by (cases r) (simp_all add: optimize_storage_def Let_def finish_def [symmetric])
qed


text \<open>C8, as amended. On a ledger whose identifiers have files of their own (no two
  of their paths name the same file), the invariant and that property are kept by \<^verbatim>\<open>get_resource\<close>, \<^verbatim>\<open>delete_resource\<close> and
  \<^verbatim>\<open>optimize_storage\<close>, and by \<^verbatim>\<open>store_resource\<close> when the identifier stored does
  not share its file with another one of the ledger and the write does not fail after
  the file was opened. \<^verbatim>\<open>list_resources\<close> and \<^verbatim>\<open>get_usage_stats\<close> read the state
  and return none, so they keep whatever holds of it.\<close>

theorem operations_keep_records_and_files_consistent:
  assumes "consistent E s" and "unshared_paths E s"
  shows "((\<forall>rid'. DAList.lookup (resources s) rid' \<noteq> None \<and> rid' \<noteq> rid \<longrightarrow>
             payload_file E s rid' \<noteq> payload_file E s rid) \<and>
          (\<forall>part. write_outcome E (tick s) \<noteq> WriteFailed part) \<longrightarrow>
            consistent E (snd (store_resource E s rid c cat p)) \<and>
            unshared_paths E (snd (store_resource E s rid c cat p))) \<and>
         consistent E (snd (get_resource E s rid)) \<and>
         unshared_paths E (snd (get_resource E s rid)) \<and>
         consistent E (snd (delete_resource E s rid)) \<and>
         unshared_paths E (snd (delete_resource E s rid)) \<and>
         consistent E (snd (optimize_storage E s max_size')) \<and>
         unshared_paths E (snd (optimize_storage E s max_size'))"
proof -
  from assms have k: "kept E s" by (simp add: kept_def)
  have "kept E (snd (store_resource E s rid c cat p))"
    if "(\<forall>rid'. DAList.lookup (resources s) rid' \<noteq> None \<and> rid' \<noteq> rid \<longrightarrow>
             payload_file E s rid' \<noteq> payload_file E s rid) \<and>
        (\<forall>part. write_outcome E (tick s) \<noteq> WriteFailed part)"
    using that kept_store [OF k, of rid c cat p] by blast
  with kept_get [OF k, of rid] kept_delete [OF k, of rid] kept_optimize [OF k, of max_size']
  show ?thesis unfolding kept_def by blast
qed

lemma twins_fields:
  "resource_dir twins = ''/srv/vram''"
  "files twins = [''/srv/vram/y.dat'' \<mapsto> [1, 2, 3]]"
  "DAList.lookup (resources twins) rid =
     (if rid = ''/srv/vram/y'' then
        Some \<lparr>size_bytes = Some 3, hash = Some ''aaa'', category = Some ''general'',
              priority = Some 1, created = Some ''2024-01-11T12:00:00'',
              last_accessed = Some ''2024-01-11T12:00:00'', access_count = Some 0,
              version = Some 1\<rparr>
      else if rid = ''y'' then
        Some \<lparr>size_bytes = Some 3, hash = Some ''aaa'', category = Some ''general'',
              priority = Some 4, created = Some ''2024-01-11T12:00:00'',
              last_accessed = Some ''2024-01-11T12:00:00'', access_count = Some 0,
              version = Some 1\<rparr>
      else None)"
  by (simp_all add: twins_def run_store stub_times_def DAList.lookup_update)

text \<open>C8 as the specification states it fails: with \<open>y\<close> and \<open>/srv/vram/y\<close>
  stored in one file the invariant holds, and deleting \<open>y\<close> removes the file that
  the record of \<open>/srv/vram/y\<close> still needs. (Identifiers such as \<open>y\<close> and \<open>./y\<close>
  share their file in the same way.)\<close>

theorem shared_path_counterexample:
  "consistent stub_env twins \<and>
   \<not> consistent stub_env (snd (delete_resource stub_env twins ''y''))"
proof
  have p: "payload_file stub_env twins ''y'' = ''/srv/vram/y.dat''"
    "payload_file stub_env twins ''/srv/vram/y'' = ''/srv/vram/y.dat''"
    by (simp_all add: payload_file_def get_file_path_def path_join_def twins_fields stub_env_fields stub_paths)
  show "consistent stub_env twins"
    unfolding consistent_def
  proof (intro conjI allI impI)
    fix rid m assume "DAList.lookup (resources twins) rid = Some m"
    then show "\<exists>data. files twins (payload_file stub_env twins rid) = Some data \<and>
        hash m = Some (sha256_hexdigest stub_env data)"
      using p by (auto simp: twins_fields stub_env_fields split: if_splits)
  next
    fix q assume "files twins q \<noteq> None"
    then have "q = ''/srv/vram/y.dat''" by (simp add: twins_fields split: if_splits)
    with p(1) show "\<exists>rid. DAList.lookup (resources twins) rid \<noteq> None \<and> payload_file stub_env twins rid = q"
      by (intro exI [of _ "''y''"]) (simp add: twins_fields)
  qed
  let ?s = "snd (delete_resource stub_env twins ''y'')"
  have "DAList.lookup (resources ?s) ''/srv/vram/y'' \<noteq> None"
    by (simp add: delete_resource_def twins_fields p stub_env_fields)
  moreover have "files ?s (payload_file stub_env ?s ''/srv/vram/y'') = None"
    by (simp add: delete_resource_def twins_fields p stub_env_fields)
  ultimately show "\<not> consistent stub_env ?s"
    unfolding consistent_def by fastforce
qed


lemma stored_text_fields:
  "resource_dir stored_text = ''/srv/vram''"
  "files stored_text = [''/srv/vram/cfg.dat'' \<mapsto> [0x68, 0xC3, 0xA9, 0xE2, 0x82, 0xAC]]"
  "DAList.lookup (resources stored_text) rid =
     (if rid = ''cfg'' then
        Some \<lparr>size_bytes = Some 6, hash = Some ''aaaaaa'', category = Some ''general'',
              priority = Some 1, created = Some ''2024-01-11T12:00:00'',
              last_accessed = Some ''2024-01-11T12:00:00'', access_count = Some 0,
              version = Some 1\<rparr>
      else None)"
  "tick stored_text = 7"
  by (simp_all add: stored_text_def run_store stub_times_def DAList.lookup_update)

theorem operations_keep_records_and_files_consistent_witness:
  "consistent stub_env stored_text \<and> unshared_paths stub_env stored_text \<and>
   payload_file stub_env stored_text ''cfg'' \<noteq> payload_file stub_env stored_text ''lib'' \<and>
   write_outcome stub_env (tick stored_text) = Written \<and>
   consistent stub_env (snd (store_resource stub_env stored_text ''lib'' (Bytes [7]) ''library'' 2)) \<and>
   consistent stub_env (snd (get_resource stub_env stored_text ''cfg'')) \<and>
   consistent stub_env (snd (delete_resource stub_env stored_text ''cfg'')) \<and>
   consistent stub_env (snd (optimize_storage stub_env stored_text (Some 3)))"
proof -
  have p: "payload_file stub_env stored_text ''cfg'' = ''/srv/vram/cfg.dat''"
    "payload_file stub_env stored_text ''lib'' = ''/srv/vram/lib.dat''"
    by (simp_all add: payload_file_def get_file_path_def path_join_def stored_text_fields stub_env_fields stub_paths)
  have c: "consistent stub_env stored_text"
    unfolding consistent_def
  proof (intro conjI allI impI)
    fix rid m assume "DAList.lookup (resources stored_text) rid = Some m"
    then show "\<exists>data. files stored_text (payload_file stub_env stored_text rid) = Some data \<and>
        hash m = Some (sha256_hexdigest stub_env data)"
      using p by (auto simp: stored_text_fields stub_env_fields split: if_splits)
  next
    fix q assume "files stored_text q \<noteq> None"
    then have "q = ''/srv/vram/cfg.dat''" by (simp add: stored_text_fields split: if_splits)
    with p(1) show "\<exists>rid. DAList.lookup (resources stored_text) rid \<noteq> None \<and>
        payload_file stub_env stored_text rid = q"
      by (intro exI [of _ "''cfg''"]) (simp add: stored_text_fields)
  qed
  have u: "unshared_paths stub_env stored_text"
    unfolding unshared_paths_def by (auto simp: stored_text_fields split: if_splits)
  have alone: "\<forall>rid'. DAList.lookup (resources stored_text) rid' \<noteq> None \<and> rid' \<noteq> ''lib'' \<longrightarrow>
      payload_file stub_env stored_text rid' \<noteq> payload_file stub_env stored_text ''lib''"
    using p by (auto simp: stored_text_fields split: if_splits)
  have w: "write_outcome stub_env (tick stored_text) = Written" by (simp add: stub_env_fields)
  from operations_keep_records_and_files_consistent [OF c u, where rid = "''lib''"
        and c = "Bytes [7]" and cat = "''library''" and p = 2 and max_size' = "Some 3"]
    operations_keep_records_and_files_consistent [OF c u, where rid = "''cfg''"
        and max_size' = "Some 3"]
    alone w c u p
  show ?thesis by simp
qed

end
